theory Spec2Isabelle
  imports Complex_Main
begin

section \<open>The chunked download engine (downloader/chunk_downloader.py)\<close>

text \<open>
  A shallow embedding of class \<open>ChunkDownloader\<close>. Byte counts are Python's unbounded
  integers (\<open>int\<close>); clock readings and the derived percentage and speed are taken over
  \<open>real\<close>. Everything the network does is an input of the model. The file system is
  the existence of the two paths the job owns, with the sizes of the files; whether a
  removal raises is an input too. Printing is dropped, and so is KeyboardInterrupt.
\<close>

subsection \<open>Segment calculation (download, "Calculate segments")\<close>

datatype py_error = ZeroDivisionError

text \<open>A planned segment is the tuple \<open>(i, start_byte, end_byte)\<close> the source appends.\<close>

type_synonym segment = "int \<times> int \<times> int"

definition seg_index :: "segment \<Rightarrow> int" where
  "seg_index s = fst s"

definition seg_start :: "segment \<Rightarrow> int" where
  "seg_start s = fst (snd s)"

definition seg_end :: "segment \<Rightarrow> int" where
  "seg_end s = snd (snd s)"

definition seg_len :: "segment \<Rightarrow> int" where
  "seg_len s = seg_end s - seg_start s + 1"

text \<open>
  The body of \<open>for i in range(self.num_connections)\<close>: both \<open>break\<close>s end the list,
  the segments appended before them stay.
\<close>

function plan_loop :: "int \<Rightarrow> int \<Rightarrow> int \<Rightarrow> int \<Rightarrow> int \<Rightarrow> segment list" where
  "plan_loop total_size n segment_size i current_byte =
     (if n \<le> i then []
      else if total_size \<le> current_byte then []
      else
        let start_byte = current_byte;
            end_byte = (if i = n - 1 then total_size - 1
                        else min (current_byte + segment_size - 1) (total_size - 1))
        in if start_byte \<le> end_byte \<and> end_byte < total_size
           then (i, start_byte, end_byte)
                  # plan_loop total_size n segment_size (i + 1) (end_byte + 1)
           else [])"
  by pat_completeness auto
termination
  by (relation "measure (\<lambda>(total_size, n, segment_size, i, current_byte). nat (n - i))") auto

declare plan_loop.simps [simp del]

text \<open>
  \<open>segment_size = total_size // num_connections\<close> raises ZeroDivisionError for zero
  connections; Python's floor division is HOL's \<open>div\<close> on \<open>int\<close> otherwise.
\<close>

definition calc_segments :: "int \<Rightarrow> int \<Rightarrow> py_error + segment list" where
  "calc_segments total_size n =
     (if n = 0 then Inl ZeroDivisionError
      else
        let segment_size = total_size div n;
            segment_size = (if segment_size = 0 then total_size else segment_size)
        in Inr (plan_loop total_size n segment_size 0 0))"

text \<open>Properties of a segment list, as predicates that compute.\<close>

fun contiguous_from :: "int \<Rightarrow> segment list \<Rightarrow> bool" where
  "contiguous_from c [] = True"
| "contiguous_from c (s # ss) = (seg_start s = c \<and> contiguous_from (seg_end s + 1) ss)"

fun starts_after :: "int \<Rightarrow> segment list \<Rightarrow> bool" where
  "starts_after e [] = True"
| "starts_after e (s # ss) = (e < seg_start s \<and> starts_after e ss)"

fun non_overlapping :: "segment list \<Rightarrow> bool" where
  "non_overlapping [] = True"
| "non_overlapping (s # ss) =
     (seg_start s \<le> seg_end s \<and> starts_after (seg_end s) ss \<and> non_overlapping ss)"


subsection \<open>Job state\<close>

datatype conn_type = NA | Single | Multi int

datatype status = Completed | Failed | Cancelled

text \<open>
  The error strings of the source, one constructor per message. The text of a caught
  exception (\<open>{e}\<close>) is a string the environment supplies.
\<close>

datatype suffix = NoSuffix | Unauthorized | Forbidden | RangeNotSatisfiable

datatype detail = ExcText string | SizeMismatch int int

datatype job_error =
    CancelledByUser \<comment> \<open>"Download cancelled by user"\<close>
  | HeadTimedOut string \<comment> \<open>"HEAD request timed out (25s) checking range support: {e}"\<close>
  | HeadUnexpected string \<comment> \<open>"Unexpected error during HEAD request: {e}"\<close>
  | SegmentFailed int detail suffix \<comment> \<open>"Segment {i} failed: {detail}"\<close>
  | SegmentFailedTry int int detail suffix
      \<comment> \<open>"Segment {i} failed (Try {current_try}/3): {detail}"\<close>
  | SegmentCritical int string \<comment> \<open>"Segment {i} critical error: {e}"\<close>
  | CancelledBeforeParts \<comment> \<open>"Cancelled before any parts downloaded."\<close>
  | NoPartFiles \<comment> \<open>"No part files found to merge."\<close>
  | CancelledMergeAborted \<comment> \<open>"Cancelled during download, merge aborted."\<close>
  | MergedSizeDiffers int int
      \<comment> \<open>"Merged size ({final}) differs significantly from expected ({total}). ..."\<close>
  | MergeMissingPart int
      \<comment> \<open>"Failed to merge parts: Merge failed, missing part file: part_{i}. ..."\<close>
  | FallbackSizeMismatch int int
      \<comment> \<open>"Fallback download size mismatch. Expected {total}, got {downloaded}."\<close>
  | FallbackRequestException string suffix
      \<comment> \<open>"Fallback download RequestException: {detail}"\<close>
  | FallbackUnexpected string
      \<comment> \<open>"Fallback download failed with unexpected error: {e}"\<close>
  | TempDirFailed string \<comment> \<open>"Failed to create temp directory ...: {e}"\<close>
  | NoValidSegments \<comment> \<open>"No valid download segments calculated for multi-connection."\<close>
  | SingleFailed \<comment> \<open>"Single connection download failed."\<close>
  | CancelledPlain \<comment> \<open>"Cancelled"\<close>
  | MultiSizeMismatch int int
      \<comment> \<open>"Multi-download size mismatch. Expected {expected}, got {downloaded}."\<close>
  | UnexpectedDownloadError string \<comment> \<open>"Unexpected download error: {e}"\<close>

text \<open>
  The keyword arguments of one call of \<open>manager._update_download_status\<close>: a sparse
  update, \<open>None\<close> for an argument that is not passed. \<open>u_error\<close> is \<open>Some None\<close>
  when \<open>error=None\<close> is passed.
\<close>

record status_update =
  u_status :: "status option"
  u_progress :: "real option"
  u_speed :: "real option"
  u_error :: "job_error option option"
  u_connection_type :: "conn_type option"

definition no_update :: status_update where
  "no_update = \<lparr>u_status = None, u_progress = None, u_speed = None, u_error = None,
     u_connection_type = None\<rparr>"

text \<open>
  The fields of \<open>ChunkDownloader\<close>, the two paths it owns on disk (the temp directory
  with its part files, a map from segment index to file size, and the output file),
  and the calls the manager has received, oldest first.
\<close>

record job =
  initial_url :: string
  url :: string
  api_key :: "string option"
  manager :: bool
  download_id :: "string option"
  num_connections :: int
  total_size :: int
  downloaded :: int
  cancel_event :: bool
  error :: "job_error option"
  part_files :: "int list"
  connection_type :: conn_type
  start_time :: real
  last_update_time :: real
  last_downloaded_bytes :: int
  speed :: real
  temp_dir_exists :: bool
  part_size :: "int \<rightharpoonup> int"
  output_exists :: bool
  output_size :: int
  notifications :: "status_update list"

text \<open>\<open>if self.manager and self.download_id\<close>: an empty id is falsy.\<close>

definition manager_and_id :: "job \<Rightarrow> bool" where
  "manager_and_id j =
     (manager j \<and> (case download_id j of None \<Rightarrow> False | Some d \<Rightarrow> d \<noteq> []))"

definition notify :: "status_update \<Rightarrow> job \<Rightarrow> job" where
  "notify u j =
     (if manager_and_id j then j\<lparr>notifications := notifications j @ [u]\<rparr> else j)"

text \<open>
  \<open>__init__\<close>: at least one connection, a known size only when positive. Whether the
  two paths exist on disk (and the size of the output file) is the file system's.
\<close>

definition init ::
    "string \<Rightarrow> int \<Rightarrow> bool \<Rightarrow> string option \<Rightarrow> string option \<Rightarrow> int option
       \<Rightarrow> bool \<Rightarrow> int option \<Rightarrow> job" where
  "init u num_conn mgr did key known_size temp_exists output_file =
     \<lparr>initial_url = u, url = u, api_key = key, manager = mgr, download_id = did,
      num_connections = max 1 num_conn,
      total_size = (case known_size of None \<Rightarrow> 0 | Some k \<Rightarrow> if k > 0 then k else 0),
      downloaded = 0, cancel_event = False, error = None, part_files = [],
      connection_type = NA, start_time = 0, last_update_time = 0,
      last_downloaded_bytes = 0, speed = 0, temp_dir_exists = temp_exists,
      part_size = Map.empty, output_exists = (output_file \<noteq> None),
      output_size = (case output_file of None \<Rightarrow> 0 | Some n \<Rightarrow> n),
      notifications = []\<rparr>"

definition get_request_headers :: "job \<Rightarrow> string option \<Rightarrow> (string \<times> string) list" where
  "get_request_headers j add_range =
     (case api_key j of
        None \<Rightarrow> []
      | Some k \<Rightarrow> (if k = [] then [] else [(''Authorization'', ''Bearer '' @ k)]))
     @ (case add_range of
          None \<Rightarrow> []
        | Some r \<Rightarrow> (if r = [] then [] else [(''Range'', r)]))"

subsection \<open>Cancellation and cleanup\<close>

definition cancel :: "job \<Rightarrow> job" where
  "cancel j =
     (if \<not> cancel_event j
      then notify (no_update\<lparr>u_status := Some Cancelled, u_error := Some (Some CancelledByUser)\<rparr>)
             (j\<lparr>cancel_event := True, error := Some CancelledByUser\<rparr>)
      else j)"

text \<open>
  \<open>shutil.rmtree\<close> takes the part files with the directory; \<open>unlink\<close> removes the
  output file. Either may raise: the handler prints a warning, and the path stays.
\<close>

record fs_faults =
  rmtree_raises :: bool
  unlink_raises :: bool

definition cleanup_temp :: "fs_faults \<Rightarrow> bool \<Rightarrow> job \<Rightarrow> job" where
  "cleanup_temp f success j =
     (let j1 = (if temp_dir_exists j
                then (if rmtree_raises f then j
                      else j\<lparr>temp_dir_exists := False, part_size := Map.empty\<rparr>)
                else j)
      in if \<not> success \<and> output_exists j1
         then (if unlink_raises f then j1
               else j1\<lparr>output_exists := False, output_size := 0\<rparr>)
         else j1)"

subsection \<open>The range probe (get_range_support_and_url)\<close>

text \<open>Exceptions are values; the payload is the exception's text.\<close>

datatype exc =
    Timeout string \<comment> \<open>requests.exceptions.Timeout\<close>
  | RequestException string "int option"
      \<comment> \<open>any other RequestException, with \<open>e.response.status_code\<close> when
          \<open>e.response\<close> is not None (an HTTPError of \<open>raise_for_status\<close> has one)\<close>
  | ValueError string
  | OtherExc string

definition exc_text :: "exc \<Rightarrow> string" where
  "exc_text e = (case e of Timeout t \<Rightarrow> t | RequestException t st \<Rightarrow> t
                 | ValueError t \<Rightarrow> t | OtherExc t \<Rightarrow> t)"

text \<open>
  The content-length header as \<open>int(...)\<close> sees it: absent (the default 0 is used),
  the text of an integer, or text that \<open>int\<close> rejects with the given ValueError.
\<close>

datatype length_header = CLAbsent | CLInt int | CLInvalid string

definition py_int_header :: "length_header \<Rightarrow> exc + int" where
  "py_int_header h =
     (case h of CLAbsent \<Rightarrow> Inr 0 | CLInt n \<Rightarrow> Inr n | CLInvalid t \<Rightarrow> Inl (ValueError t))"

record head_response =
  resp_url :: string
  accept_ranges :: "string option"
  content_length :: length_header

text \<open>
  What \<open>requests.head(url, headers=...)\<close> followed by \<open>raise_for_status()\<close> does for
  a URL and request headers: an exception, or the response that passed.
\<close>

type_synonym head_server = "string \<Rightarrow> (string \<times> string) list \<Rightarrow> exc + head_response"

text \<open>\<open>str.lower\<close> on the Latin-1 text of a header value.\<close>

definition lower_char :: "char \<Rightarrow> char" where
  "lower_char c =
     (let n = (of_char c :: nat)
      in if (65 \<le> n \<and> n \<le> 90) \<or> (192 \<le> n \<and> n \<le> 222 \<and> n \<noteq> 215)
         then char_of (n + 32) else c)"

definition lower :: "string \<Rightarrow> string" where
  "lower s = map lower_char s"

text \<open>The \<open>try\<close> block: an exception leaves with the state reached so far.\<close>

definition head_try :: "head_server \<Rightarrow> job \<Rightarrow> exc \<times> job + string \<times> bool \<times> job" where
  "head_try server j =
     (case server (initial_url j) (get_request_headers j None) of
        Inl e \<Rightarrow> Inl (e, j)
      | Inr response \<Rightarrow>
          let final_url = resp_url response;
              j1 = j\<lparr>url := final_url\<rparr>;
              accept = lower (case accept_ranges response of None \<Rightarrow> ''none'' | Some v \<Rightarrow> v);
              supports_ranges = (accept = ''bytes'')
          in if total_size j1 \<le> 0
             then (case py_int_header (content_length response) of
                     Inl e \<Rightarrow> Inl (e, j1)
                   | Inr head_size \<Rightarrow>
                       Inr (final_url, supports_ranges,
                            if head_size > 0 then j1\<lparr>total_size := head_size\<rparr> else j1))
             else Inr (final_url, supports_ranges, j1))"

text \<open>
  The handlers, in the source's order; the last catches every \<open>Exception\<close>. The
  RequestException handler leaves \<open>self.error\<close> alone (its assignment is commented
  out in the source). \<open>Inl\<close> would be an exception that reaches the caller.
\<close>

definition get_range_support_and_url ::
    "head_server \<Rightarrow> job \<Rightarrow> exc + string \<times> bool \<times> job" where
  "get_range_support_and_url server j =
     (case head_try server j of
        Inr r \<Rightarrow> Inr r
      | Inl (Timeout t, j1) \<Rightarrow>
          Inr (initial_url j1, False, j1\<lparr>error := Some (HeadTimedOut t)\<rparr>)
      | Inl (RequestException t st, j1) \<Rightarrow> Inr (initial_url j1, False, j1)
      | Inl (e, j1) \<Rightarrow>
          Inr (initial_url j1, False, j1\<lparr>error := Some (HeadUnexpected (exc_text e))\<rparr>))"

subsection \<open>Progress and speed (update_progress)\<close>

definition STATUS_UPDATE_INTERVAL :: real where
  "STATUS_UPDATE_INTERVAL = 1 / 2"

definition percent :: "int \<Rightarrow> int \<Rightarrow> real" where
  "percent d t = real_of_int d / real_of_int t * 100"

text \<open>
  The body under \<open>self.lock\<close>, with the reading of \<open>time.monotonic()\<close> as the
  argument \<open>current_time\<close>.
\<close>

definition update_progress :: "int \<Rightarrow> real \<Rightarrow> job \<Rightarrow> job" where
  "update_progress chunk_len current_time j =
     (let j1 = j\<lparr>downloaded := downloaded j + chunk_len\<rparr>;
          time_diff = current_time - last_update_time j1
      in if time_diff \<ge> STATUS_UPDATE_INTERVAL \<or> downloaded j1 = total_size j1
         then
           let progress = (if total_size j1 > 0
                           then min (percent (downloaded j1) (total_size j1)) 100 else 0);
               j2 = (if time_diff > 0
                     then j1\<lparr>speed :=
                            real_of_int (downloaded j1 - last_downloaded_bytes j1) / time_diff\<rparr>
                     else j1);
               j3 = j2\<lparr>last_update_time := current_time,
                       last_downloaded_bytes := downloaded j2\<rparr>
           in notify (no_update\<lparr>u_progress := Some progress, u_speed := Some (speed j3)\<rparr>) j3
         else j1)"

subsection \<open>Segment workers (download_segment)\<close>

definition retries :: int where
  "retries = 3"

text \<open>
  One thread runs \<open>download_segment\<close> for one segment. Its local variables are
  \<open>current_try\<close> and where it stands: at the head of the \<open>while\<close> loop; with its
  request in flight; inside the chunk loop, before the cancellation test (with the
  status of the response and \<open>bytes_written_this_segment\<close>); past that test, about to
  write the chunk and report it; with its error set, about to call \<open>self.cancel()\<close>;
  or returned. Other threads run between any two of these.
\<close>

datatype phase =
    LoopHead
  | Requesting
  | Streaming int int
  | Writing int int nat real
  | Escalating
  | Returned

record thread =
  segment_index :: int
  start_byte :: int
  end_byte :: int
  current_try :: int
  phase :: phase

text \<open>
  What the network does to a worker at its next step. \<open>GetOk st\<close>: \<open>requests.get\<close>
  returned a response of status \<open>st\<close> that \<open>raise_for_status\<close> let pass.
  \<open>GetRaises\<close>: \<open>requests.get\<close> raised a RequestException (the local \<open>response\<close>
  stays None). \<open>StatusRejected\<close>: \<open>raise_for_status\<close> raised for the status.
  \<open>Chunk n t\<close>: \<open>iter_content\<close> yields \<open>n\<close> bytes, and the clock will read \<open>t\<close> in
  \<open>_update_progress\<close>. \<open>StreamRaises\<close>: a RequestException while reading the body.
  \<open>OtherError\<close>: any other Exception. \<open>Resume\<close>: nothing; the thread just runs on.
\<close>

datatype net_event =
    GetOk int
  | GetRaises string "int option"
  | StatusRejected string int
  | Chunk nat real
  | StreamEnd
  | StreamRaises string "int option"
  | OtherError string
  | Resume

text \<open>
  The local \<open>response\<close> in the handler. \<open>response and response.status_code == 416\<close>:
  a Response is truthy when its status passes \<open>raise_for_status\<close>, so a rejected one
  is falsy.
\<close>

datatype local_response = NoResponse | Rejected int | Accepted int

definition response_and_416 :: "local_response \<Rightarrow> bool" where
  "response_and_416 r =
     (case r of NoResponse \<Rightarrow> False | Rejected st \<Rightarrow> False | Accepted st \<Rightarrow> st = 416)"

text \<open>
  The rest of the handler after the suffix is chosen: on the last try it sets the error
  and is about to cancel; else it sleeps \<open>min(2 ** current_try, 10)\<close> seconds and
  loops.
\<close>

definition retry_or_give_up :: "detail \<Rightarrow> suffix \<Rightarrow> thread \<Rightarrow> job \<Rightarrow> thread \<times> job" where
  "retry_or_give_up d sfx th j =
     (let t = current_try th + 1
      in if t \<ge> retries
         then (th\<lparr>current_try := t, phase := Escalating\<rparr>,
               j\<lparr>error := Some (SegmentFailedTry (segment_index th) t d sfx)\<rparr>)
         else (th\<lparr>current_try := t, phase := LoopHead\<rparr>, j))"

text \<open>
  \<open>except (RequestException, ValueError)\<close>. \<open>e_status\<close> is
  \<open>e.response.status_code\<close> for a RequestException whose response is not None.
\<close>

definition segment_except ::
    "detail \<Rightarrow> int option \<Rightarrow> local_response \<Rightarrow> thread \<Rightarrow> job \<Rightarrow> thread \<times> job" where
  "segment_except d e_status response th j =
     (case e_status of
        None \<Rightarrow> retry_or_give_up d NoSuffix th j
      | Some st \<Rightarrow>
          if st = 401 then retry_or_give_up d Unauthorized th j
          else if st = 403 then retry_or_give_up d Forbidden th j
          else if response_and_416 response
          then (th\<lparr>current_try := current_try th + 1, phase := Escalating\<rparr>,
                j\<lparr>error := Some (SegmentFailed (segment_index th) d RangeNotSatisfiable)\<rparr>)
          else retry_or_give_up d NoSuffix th j)"

text \<open>\<open>except Exception\<close>: the critical error is set, the thread is about to cancel.\<close>

definition segment_critical :: "string \<Rightarrow> thread \<Rightarrow> job \<Rightarrow> thread \<times> job" where
  "segment_critical t th j =
     (th\<lparr>phase := Escalating\<rparr>,
      j\<lparr>error := Some (SegmentCritical (segment_index th) t)\<rparr>)"

text \<open>
  One step of a worker. At the loop head it tests \<open>current_try < retries and not
  self.is_cancelled\<close> and sends the request or returns. The request's outcome arrives
  in a later step: opening the part file truncates it, and fails when the temp directory
  is gone. In the chunk loop it tests the cancellation flag before every chunk; a chunk
  that is not empty is written and reported in a later step (to a file that is gone if
  the directory was removed meanwhile). After setting its error it calls \<open>cancel()\<close>
  and returns. An event that cannot occur where the worker stands changes nothing.
\<close>

definition download_segment_step :: "net_event \<Rightarrow> thread \<Rightarrow> job \<Rightarrow> thread \<times> job" where
  "download_segment_step ev th j =
     (case phase th of
        Returned \<Rightarrow> (th, j)
      | LoopHead \<Rightarrow>
          if current_try th < retries \<and> \<not> cancel_event j
          then (th\<lparr>phase := Requesting\<rparr>, j)
          else (th\<lparr>phase := Returned\<rparr>, j)
      | Requesting \<Rightarrow>
          (case ev of
             GetOk st \<Rightarrow>
               if temp_dir_exists j
               then (th\<lparr>phase := Streaming st 0\<rparr>,
                     j\<lparr>part_size := (part_size j)(segment_index th \<mapsto> 0)\<rparr>)
               else segment_critical ''No such file or directory'' th j
           | GetRaises t e_status \<Rightarrow> segment_except (ExcText t) e_status NoResponse th j
           | StatusRejected t st \<Rightarrow> segment_except (ExcText t) (Some st) (Rejected st) th j
           | OtherError t \<Rightarrow> segment_critical t th j
           | _ \<Rightarrow> (th, j))
      | Streaming st written \<Rightarrow>
          (case ev of
             Chunk n t \<Rightarrow>
               if cancel_event j then (th\<lparr>phase := Returned\<rparr>, j)
               else if n \<noteq> 0 then (th\<lparr>phase := Writing st written n t\<rparr>, j)
               else (th, j)
           | StreamEnd \<Rightarrow>
               let expected_size = (end_byte th - start_byte th) + 1
               in if written \<noteq> expected_size
                  then segment_except (SizeMismatch expected_size written) None (Accepted st) th j
                  else (th\<lparr>phase := Returned\<rparr>, j)
           | StreamRaises t e_status \<Rightarrow> segment_except (ExcText t) e_status (Accepted st) th j
           | OtherError t \<Rightarrow> segment_critical t th j
           | _ \<Rightarrow> (th, j))
      | Writing st written n t \<Rightarrow>
          (th\<lparr>phase := Streaming st (written + int n)\<rparr>,
           update_progress (int n) t
             (if temp_dir_exists j
              then j\<lparr>part_size := (part_size j)(segment_index th \<mapsto> written + int n)\<rparr>
              else j))
      | Escalating \<Rightarrow> (th\<lparr>phase := Returned\<rparr>, cancel j))"

text \<open>
  The threads run interleaved: a schedule says which thread takes the next step and
  what the network gives it, or that \<open>cancel()\<close> is called from outside (the manager, on
  a user's request).
\<close>

datatype sched = Run nat net_event | ExternalCancel

fun sched_step :: "sched \<Rightarrow> thread list \<times> job \<Rightarrow> thread list \<times> job" where
  "sched_step (Run k ev) (ths, j) =
     (if k < length ths
      then (case download_segment_step ev (ths ! k) j of (th, j1) \<Rightarrow> (ths[k := th], j1))
      else (ths, j))"
| "sched_step ExternalCancel (ths, j) = (ths, cancel j)"

fun run_threads :: "sched list \<Rightarrow> thread list \<times> job \<Rightarrow> thread list \<times> job" where
  "run_threads [] st = st"
| "run_threads (s # ss) st = run_threads ss (sched_step s st)"

definition new_thread :: "segment \<Rightarrow> thread" where
  "new_thread s = \<lparr>segment_index = seg_index s, start_byte = seg_start s,
     end_byte = seg_end s, current_try = 0, phase = LoopHead\<rparr>"

text \<open>
  The loop that starts the threads stops at a set cancellation flag. A flag set before
  the loop starts no thread; a flag set while it runs is the schedule's business: a
  thread started after it returns at once, as one that is never started.
\<close>

definition start_threads :: "segment list \<Rightarrow> job \<Rightarrow> thread list" where
  "start_threads segments j = (if cancel_event j then [] else map new_thread segments)"

text \<open>
  \<open>while active_threads\<close>: the orchestrator leaves the loop when the flag is set
  (recording "Cancelled" if no error is there) or when every thread has returned. The
  schedule is what happens until it looks; if by then neither holds, it is still
  waiting (\<open>None\<close>). It does not join the threads: after a cancellation those that
  have not returned run on, and are handed on with the state.
\<close>

definition wait_for_threads ::
    "sched list \<Rightarrow> thread list \<Rightarrow> job \<Rightarrow> (thread list \<times> job) option" where
  "wait_for_threads schedule ths j =
     (if ths = [] then Some ([], j)
      else (case run_threads schedule (ths, j) of
              (ths1, j1) \<Rightarrow>
                if cancel_event j1
                then Some (ths1, j1\<lparr>error := (case error j1 of None \<Rightarrow> Some CancelledPlain
                                                | Some e \<Rightarrow> Some e)\<rparr>)
                else if list_all (\<lambda>th. phase th = Returned) ths1 then Some (ths1, j1)
                else None))"

text \<open>Steps of the workers alone, with no call of \<open>cancel()\<close> from outside.\<close>

definition run_late :: "(nat \<times> net_event) list \<Rightarrow> thread list \<times> job \<Rightarrow> thread list \<times> job" where
  "run_late steps st = run_threads (map (\<lambda>(k, ev). Run k ev) steps) st"

subsection \<open>Merging (merge_parts)\<close>

text \<open>
  The copy loop over the sorted part files, the output file open for writing. A
  missing part ends it: with "merge aborted" under cancellation, with
  FileNotFoundError (caught by \<open>except Exception\<close>) otherwise.
\<close>

fun copy_parts :: "int list \<Rightarrow> job \<Rightarrow> bool \<times> job" where
  "copy_parts [] j = (True, j)"
| "copy_parts (p # ps) j =
     (case part_size j p of
        None \<Rightarrow>
          if cancel_event j
          then (False, j\<lparr>error := (case error j of None \<Rightarrow> Some CancelledMergeAborted
                                    | Some e \<Rightarrow> Some e)\<rparr>)
          else (False, j\<lparr>error := Some (MergeMissingPart p)\<rparr>)
      | Some n \<Rightarrow> copy_parts ps (j\<lparr>output_size := output_size j + n\<rparr>))"

definition merge_parts :: "job \<Rightarrow> bool \<times> job" where
  "merge_parts j =
     (if part_files j = []
      then (if cancel_event j
            then (False, j\<lparr>error := (case error j of None \<Rightarrow> Some CancelledBeforeParts
                                      | Some e \<Rightarrow> Some e)\<rparr>)
            else (False, j\<lparr>error := Some NoPartFiles\<rparr>))
      else
        let sorted_part_files = sort (part_files j)
        in (case copy_parts sorted_part_files (j\<lparr>output_exists := True, output_size := 0\<rparr>) of
              (False, j1) \<Rightarrow> (False, j1)
            | (True, j1) \<Rightarrow>
                let final_size = output_size j1
                in if total_size j1 > 0 \<and> \<bar>final_size - total_size j1\<bar> > 1
                   then (False, j1\<lparr>error := Some (MergedSizeDiffers final_size (total_size j1))\<rparr>)
                   else (True, j1)))"

subsection \<open>Single connection (fallback_download)\<close>

text \<open>
  What the body of the GET response does next: a chunk of \<open>n\<close> bytes (with the clock
  reading for \<open>_update_progress\<close>), an exception, or a call of \<open>cancel()\<close> from
  outside before the next chunk. The end of the list is the end of the body.
\<close>

datatype stream_event = FChunk nat real | FCancel | FRaise exc

datatype stream_exit = StreamDone | StreamCancelled | StreamRaised exc

fun fallback_stream :: "stream_event list \<Rightarrow> job \<Rightarrow> stream_exit \<times> job" where
  "fallback_stream [] j = (StreamDone, j)"
| "fallback_stream (FChunk n t # es) j =
     (if cancel_event j then (StreamCancelled, j)
      else fallback_stream es
             (if n \<noteq> 0
              then update_progress (int n) t (j\<lparr>output_size := output_size j + int n\<rparr>)
              else j))"
| "fallback_stream (FCancel # es) j = fallback_stream es (cancel j)"
| "fallback_stream (FRaise e # es) j = (StreamRaised e, j)"

text \<open>
  The two handlers: \<open>except RequestException\<close> (Timeout is one) and
  \<open>except Exception\<close>.
\<close>

definition fallback_except :: "exc \<Rightarrow> job \<Rightarrow> job" where
  "fallback_except e j =
     (case e of
        Timeout t \<Rightarrow> j\<lparr>error := Some (FallbackRequestException t NoSuffix)\<rparr>
      | RequestException t st \<Rightarrow>
          j\<lparr>error := Some (FallbackRequestException t
                 (if st = Some 401 then Unauthorized
                  else if st = Some 403 then Forbidden else NoSuffix))\<rparr>
      | ValueError t \<Rightarrow> j\<lparr>error := Some (FallbackUnexpected t)\<rparr>
      | OtherExc t \<Rightarrow> j\<lparr>error := Some (FallbackUnexpected t)\<rparr>)"

text \<open>
  "Get/Confirm size if not already known or was 0": \<open>int\<close> may raise on the
  content-length header.
\<close>

definition fallback_get_size :: "length_header \<Rightarrow> job \<Rightarrow> exc + job" where
  "fallback_get_size cl j =
     (if total_size j \<le> 0
      then (case py_int_header cl of
              Inl e \<Rightarrow> Inl e
            | Inr get_size \<Rightarrow>
                Inr (if get_size > 0 then j\<lparr>total_size := get_size\<rparr>
                     else j\<lparr>total_size := 0\<rparr>))
      else Inr j)"

text \<open>
  The output file is opened for writing, the body is streamed into it, and a size that
  differs from a known total is recorded as an error while the result stays True.
\<close>

definition fallback_body :: "stream_event list \<Rightarrow> job \<Rightarrow> bool \<times> job" where
  "fallback_body bd j =
     (case fallback_stream bd (j\<lparr>output_exists := True, output_size := 0\<rparr>) of
        (StreamCancelled, j5) \<Rightarrow> (False, j5)
      | (StreamRaised e, j5) \<Rightarrow> (False, fallback_except e j5)
      | (StreamDone, j5) \<Rightarrow>
          (True,
           if total_size j5 > 0 \<and> downloaded j5 \<noteq> total_size j5
           then j5\<lparr>error := Some (FallbackSizeMismatch (total_size j5) (downloaded j5))\<rparr>
           else j5))"

text \<open>
  The start of \<open>fallback_download\<close>: the connection type is set and reported, the
  counters are reset. \<open>self._start_time or time.monotonic()\<close> reads the clock when
  the start time is 0.
\<close>

definition fallback_reset :: "real \<Rightarrow> job \<Rightarrow> job" where
  "fallback_reset now j =
     (let j1 = notify (no_update\<lparr>u_connection_type := Some Single\<rparr>)
                 (j\<lparr>connection_type := Single\<rparr>);
          st = (if start_time j1 = 0 then now else start_time j1)
      in j1\<lparr>start_time := st, last_update_time := st, last_downloaded_bytes := 0,
             downloaded := 0\<rparr>)"

text \<open>
  \<open>get\<close> is what \<open>requests.get\<close> followed by \<open>raise_for_status()\<close> does: an
  exception, or the final URL and the content-length header of the response.
\<close>

definition fallback_download ::
    "real \<Rightarrow> exc + string \<times> length_header \<Rightarrow> stream_event list \<Rightarrow> job \<Rightarrow> bool \<times> job" where
  "fallback_download now get bd j =
     (let j2 = fallback_reset now j
      in case get of
           Inl e \<Rightarrow> (False, fallback_except e j2)
         | Inr (final_get_url, cl) \<Rightarrow>
             let j3 = j2\<lparr>url := final_get_url\<rparr>
             in (case fallback_get_size cl j3 of
                   Inl e \<Rightarrow> (False, fallback_except e j3)
                 | Inr j4 \<Rightarrow> fallback_body bd j4))"

subsection \<open>The orchestrator (download)\<close>

text \<open>
  Everything outside the job that one run of \<open>download\<close> meets. \<open>init_faults\<close> and
  \<open>final_faults\<close>: whether the removals raise in the cleanup at the start and in the
  one of the \<open>finally\<close> block. \<open>setup_rmtree\<close> and \<open>mkdir_temp\<close>: the exception,
  if any, of removing and of creating the temp directory in the multi-connection branch.
  \<open>late_cleanup\<close> and \<open>late_final\<close>: the steps that workers still running take
  between the wait loop and the cleanup, and between the cleanup and the final update.
\<close>

record env =
  clock_start :: real
  init_faults :: fs_faults
  http_head :: head_server
  setup_rmtree :: "string option"
  mkdir_temp :: "string option"
  schedule :: "sched list"
  late_cleanup :: "(nat \<times> net_event) list"
  final_faults :: fs_faults
  late_final :: "(nat \<times> net_event) list"
  clock_fallback :: real
  http_get :: "exc + string \<times> length_header"
  body :: "stream_event list"

definition MIN_SIZE_FOR_MULTI_MB :: int where
  "MIN_SIZE_FOR_MULTI_MB = 10"

definition use_multi_connection :: "bool \<Rightarrow> job \<Rightarrow> bool" where
  "use_multi_connection supports_ranges j =
     (supports_ranges \<and> num_connections j > 1 \<and> total_size j > 0
      \<and> total_size j > MIN_SIZE_FOR_MULTI_MB * 1024 * 1024)"

text \<open>The start of \<open>download\<close>, up to the removal of a leftover temp directory.\<close>

definition download_init :: "fs_faults \<Rightarrow> real \<Rightarrow> job \<Rightarrow> job" where
  "download_init f now j =
     (let j1 = j\<lparr>start_time := now, downloaded := 0, error := None\<rparr>
      in if temp_dir_exists j1 then cleanup_temp f False j1 else j1)"

text \<open>"Post-Download Checks" and "Merge Parts".\<close>

definition post_download :: "int \<Rightarrow> job \<Rightarrow> bool \<times> job" where
  "post_download expected_final_size j =
     (let j1 = (if cancel_event j then j
                else if error j \<noteq> None then j
                else if downloaded j \<noteq> expected_final_size \<and> expected_final_size > 0
                then j\<lparr>error := Some (MultiSizeMismatch expected_final_size (downloaded j))\<rparr>
                else j)
      in if error j1 = None \<and> \<not> cancel_event j1 then merge_parts j1 else (False, j1))"

definition fallback_branch :: "env \<Rightarrow> job \<Rightarrow> bool \<times> job" where
  "fallback_branch e j =
     (case fallback_download (clock_fallback e) (http_get e) (body e) j of
        (success, j1) \<Rightarrow>
          (success, if \<not> success \<and> error j1 = None then j1\<lparr>error := Some SingleFailed\<rparr> else j1))"

text \<open>
  The start of the multi-connection branch, up to the segment list: \<open>Inl\<close> when it
  ends the \<open>try\<close> block with \<open>success = False\<close>. When removing a temp directory
  that exists or creating it raises, the block returns False. An exception of the
  segment calculation goes to \<open>except Exception\<close>, which keeps an error that is
  already there.
\<close>

definition multi_setup :: "env \<Rightarrow> job \<Rightarrow> bool \<times> job + segment list \<times> job" where
  "multi_setup e j =
     (let j1 = notify (no_update\<lparr>u_connection_type := Some (Multi (num_connections j))\<rparr>)
                 (j\<lparr>connection_type := Multi (num_connections j)\<rparr>)
      in case (if temp_dir_exists j1 then setup_rmtree e else None) of
           Some t \<Rightarrow> Inl (False, j1\<lparr>error := Some (TempDirFailed t)\<rparr>)
         | None \<Rightarrow>
             (case mkdir_temp e of
                Some t \<Rightarrow>
                  Inl (False, j1\<lparr>temp_dir_exists := False, part_size := Map.empty,
                                 error := Some (TempDirFailed t)\<rparr>)
              | None \<Rightarrow>
                  let j2 = j1\<lparr>temp_dir_exists := True, part_size := Map.empty,
                              part_files := []\<rparr>
                  in (case calc_segments (total_size j2) (num_connections j2) of
                        Inl ex \<Rightarrow>
                          Inl (False,
                               j2\<lparr>error := (case error j2 of
                                     None \<Rightarrow> Some (UnexpectedDownloadError
                                                     ''integer division or modulo by zero'')
                                   | Some er \<Rightarrow> Some er)\<rparr>)
                      | Inr segments \<Rightarrow>
                          Inr (segments, j2\<lparr>part_files := map seg_index segments\<rparr>))))"

text \<open>
  The \<open>try\<close> block after the segment calculation. With no segments it falls back to
  the single connection; else it starts the threads, waits, checks and merges. The
  threads come back with the result.
\<close>

definition with_segments ::
    "env \<Rightarrow> int \<Rightarrow> segment list \<Rightarrow> job \<Rightarrow> (bool \<times> thread list \<times> job) option" where
  "with_segments e expected_final_size segments j =
     (if segments = []
      then (case fallback_branch e (j\<lparr>error := Some NoValidSegments\<rparr>) of
              (success, j1) \<Rightarrow> Some (success, [], j1))
      else (case wait_for_threads (schedule e) (start_threads segments j) j of
              None \<Rightarrow> None
            | Some (ths, j4) \<Rightarrow>
                (case post_download expected_final_size j4 of
                   (success, j5) \<Rightarrow> Some (success, ths, j5))))"

text \<open>The \<open>try\<close> block.\<close>

definition download_try ::
    "env \<Rightarrow> bool \<Rightarrow> job \<Rightarrow> (bool \<times> thread list \<times> job) option" where
  "download_try e supports_ranges j =
     (let expected_final_size = total_size j
      in if use_multi_connection supports_ranges j
         then (case multi_setup e j of
                 Inl (success, j1) \<Rightarrow> Some (success, [], j1)
               | Inr (segments, j3) \<Rightarrow> with_segments e expected_final_size segments j3)
         else (case fallback_branch e j of (success, j1) \<Rightarrow> Some (success, [], j1)))"

text \<open>
  The \<open>finally\<close> block: cleanup, then the final status for the manager, with the
  steps of the workers that still run in between.
\<close>

definition final_update :: "bool \<Rightarrow> job \<Rightarrow> status_update" where
  "final_update success j =
     (let final_status = (if success then Completed
                          else if cancel_event j then Cancelled else Failed);
          final_progress = (if success then 100
                            else if total_size j > 0
                            then percent (downloaded j) (total_size j) else 0)
      in \<lparr>u_status = Some final_status, u_progress = Some (min 100 final_progress),
           u_speed = Some 0, u_error = Some (error j),
           u_connection_type = Some (connection_type j)\<rparr>)"

definition download_finally :: "env \<Rightarrow> bool \<Rightarrow> thread list \<Rightarrow> job \<Rightarrow> thread list \<times> job" where
  "download_finally e success ths j =
     (case run_late (late_cleanup e) (ths, j) of
        (ths1, j1) \<Rightarrow>
          (case run_late (late_final e) (ths1, cleanup_temp (final_faults e) success j1) of
             (ths2, j3) \<Rightarrow> (ths2, notify (final_update success j3) j3)))"

text \<open>
  \<open>download\<close>: \<open>None\<close> while the orchestrator still waits for its threads,
  \<open>Some (Inl ex)\<close> if the probe, which runs outside the \<open>try\<close>, raised, and
  \<open>Some (Inr (success, ths, j))\<close> when it returns \<open>success\<close> in state \<open>j\<close>, with
  the threads \<open>ths\<close> it leaves behind.
\<close>

definition download :: "env \<Rightarrow> job \<Rightarrow> (exc + bool \<times> thread list \<times> job) option" where
  "download e j =
     (let j1 = download_init (init_faults e) (clock_start e) j
      in case get_range_support_and_url (http_head e) j1 of
           Inl ex \<Rightarrow> Some (Inl ex)
         | Inr (final_url, supports_ranges, j2) \<Rightarrow>
             (case download_try e supports_ranges j2 of
                None \<Rightarrow> None
              | Some (success, ths, j3) \<Rightarrow>
                  (case download_finally e success ths j3 of
                     (ths1, j4) \<Rightarrow> Some (Inr (success, ths1, j4)))))"

subsection \<open>What a run leaves behind\<close>

text \<open>
  A status update is sparse when it lacks the status or the speed: the progress,
  connection-type and cancellation updates are, the final update is not. \<open>emits j j'\<close>:
  from \<open>j\<close> to \<open>j'\<close> the manager has received only further sparse updates, and none
  when no manager is attached.
\<close>

definition sparse :: "status_update \<Rightarrow> bool" where
  "sparse u = (u_status u = None \<or> u_speed u = None)"

definition emits :: "job \<Rightarrow> job \<Rightarrow> bool" where
  "emits j j' =
     (manager_and_id j' = manager_and_id j
      \<and> (\<exists>us. notifications j' = notifications j @ us \<and> list_all sparse us
             \<and> (\<not> manager_and_id j \<longrightarrow> us = [])))"

text \<open>
  Of a finished run: what \<open>download\<close> returned, the statuses the manager received in
  order, the error, and whether the temp directory and the output file exist.
\<close>

definition summary ::
    "(exc + bool \<times> thread list \<times> job) option
       \<Rightarrow> (bool \<times> status option list \<times> job_error option \<times> bool \<times> bool) option" where
  "summary r =
     (case r of
        Some (Inr (success, ths, j)) \<Rightarrow>
          Some (success, map u_status (notifications j), error j, temp_dir_exists j,
                output_exists j)
      | _ \<Rightarrow> None)"

subsection \<open>Invariants of a run\<close>

text \<open>
  What the steps of a run keep: \<open>tries_inv\<close>, a thread that has used up its tries is
  about to set the cancellation flag or has set it; \<open>step_frame\<close> and \<open>run_frame\<close>,
  what a worker step and a schedule leave alone; \<open>fallback_ok\<close> and \<open>download_ok\<close>,
  what the single-connection download and the \<open>try\<close> block of \<open>download\<close> guarantee.
\<close>

definition tries_inv :: "thread list \<Rightarrow> job \<Rightarrow> bool" where
  "tries_inv ths j =
     (\<forall>th\<in>set ths. retries \<le> current_try th \<and> phase th \<noteq> Escalating \<longrightarrow> cancel_event j)"

definition step_frame :: "thread \<Rightarrow> job \<Rightarrow> thread \<times> job \<Rightarrow> bool" where
  "step_frame th j r =
     (emits j (snd r) \<and> temp_dir_exists (snd r) = temp_dir_exists j
      \<and> output_exists (snd r) = output_exists j
      \<and> (cancel_event j \<longrightarrow> cancel_event (snd r))
      \<and> (error j \<noteq> None \<longrightarrow> error (snd r) \<noteq> None)
      \<and> (retries \<le> current_try (fst r) \<and> phase (fst r) \<noteq> Escalating \<longrightarrow>
            (retries \<le> current_try th \<and> phase th \<noteq> Escalating) \<or> cancel_event (snd r)))"

definition run_frame :: "thread list \<Rightarrow> job \<Rightarrow> thread list \<times> job \<Rightarrow> bool" where
  "run_frame ths j r =
     (emits j (snd r) \<and> temp_dir_exists (snd r) = temp_dir_exists j
      \<and> output_exists (snd r) = output_exists j
      \<and> (cancel_event j \<longrightarrow> cancel_event (snd r))
      \<and> (error j \<noteq> None \<longrightarrow> error (snd r) \<noteq> None)
      \<and> length (fst r) = length ths
      \<and> (tries_inv ths j \<longrightarrow> tries_inv (fst r) (snd r)))"

definition fallback_ok :: "job \<Rightarrow> bool \<times> job \<Rightarrow> bool" where
  "fallback_ok j r =
     (emits j (snd r) \<and> temp_dir_exists (snd r) = temp_dir_exists j
      \<and> (cancel_event j \<longrightarrow> cancel_event (snd r))
      \<and> (fst r \<longrightarrow> output_exists (snd r) \<and> connection_type (snd r) = connection_type j
            \<and> (total_size (snd r) > 0 \<and> downloaded (snd r) \<noteq> total_size (snd r) \<longrightarrow>
                 error (snd r)
                   = Some (FallbackSizeMismatch (total_size (snd r)) (downloaded (snd r))))))"

definition download_ok :: "job \<Rightarrow> bool \<times> job \<Rightarrow> bool" where
  "download_ok j r =
     (emits j (snd r) \<and> (cancel_event j \<longrightarrow> cancel_event (snd r))
      \<and> (fst r \<longrightarrow> output_exists (snd r)))"

text \<open>The bytes of a stream that consists of chunks only.\<close>

fun is_chunk :: "stream_event \<Rightarrow> bool" where
  "is_chunk (FChunk n t) = True"
| "is_chunk ev = False"

fun chunk_len :: "stream_event \<Rightarrow> int" where
  "chunk_len (FChunk n t) = int n"
| "chunk_len ev = 0"

text \<open>The bytes that the copy loop of \<open>merge_parts\<close> writes when every part exists.\<close>

definition concatenated_size :: "job \<Rightarrow> int" where
  "concatenated_size j =
     sum_list (map (\<lambda>p. case part_size j p of None \<Rightarrow> 0 | Some n \<Rightarrow> n) (sort (part_files j)))"

subsection \<open>Concrete runs\<close>

text \<open>
  No removal raises. A server that does not answer the probe and refuses the GET, and
  a job with one connection.
\<close>

definition no_faults :: fs_faults where
  "no_faults = \<lparr>rmtree_raises = False, unlink_raises = False\<rparr>"

definition dead_env :: env where
  "dead_env = \<lparr>clock_start = 1, init_faults = no_faults,
     http_head = (\<lambda>u h. Inl (Timeout ''timed out'')),
     setup_rmtree = None, mkdir_temp = None, schedule = [], late_cleanup = [],
     final_faults = no_faults, late_final = [], clock_fallback = 1,
     http_get = Inl (RequestException ''connection refused'' None), body = []\<rparr>"

definition single_job :: job where
  "single_job = init ''https://example.org/model.bin'' 1 True (Some ''job-1'') None
     (Some 5) False None"

text \<open>A job that finds a temp directory and a complete output file from an earlier run.\<close>

definition leftover_job :: job where
  "leftover_job = init ''https://example.org/model.bin'' 4 True (Some ''job-1'') None
     (Some 20971520) True (Some 20971520)"

definition unlink_fails :: fs_faults where
  "unlink_fails = \<lparr>rmtree_raises = False, unlink_raises = True\<rparr>"

definition shouting_server :: head_server where
  "shouting_server = (\<lambda>u h. Inr \<lparr>resp_url = u, accept_ranges = Some ''BYTES'',
     content_length = CLAbsent\<rparr>)"

definition garbled_server :: head_server where
  "garbled_server = (\<lambda>u h. Inr \<lparr>resp_url = u, accept_ranges = Some ''bytes'',
     content_length = CLInvalid ''invalid literal for int()''\<rparr>)"

definition unknown_size_job :: job where
  "unknown_size_job = init ''https://example.org/model.bin'' 4 True (Some ''job-1'') None
     None False None"

definition merge_job :: job where
  "merge_job = single_job\<lparr>total_size := 10, part_files := [1, 0],
     part_size := [0 \<mapsto> 3, 1 \<mapsto> 4], temp_dir_exists := True\<rparr>"

text \<open>
  A server that supports ranges, a job with two connections for a file of 20 MiB, and
  a run in which every request of the first worker fails, with and without a removal of
  the temp directory that raises; a run over one connection whose body ends after 3 of
  5 bytes; a job with no manager attached.
\<close>

definition ranged_server :: head_server where
  "ranged_server = (\<lambda>u h. Inr \<lparr>resp_url = u, accept_ranges = Some ''bytes'',
     content_length = CLAbsent\<rparr>)"

definition multi_job :: job where
  "multi_job = init ''https://example.org/model.bin'' 2 True (Some ''job-1'') None
     (Some 20971520) False None"

definition flaky_env :: env where
  "flaky_env = \<lparr>clock_start = 1, init_faults = no_faults, http_head = ranged_server,
     setup_rmtree = None, mkdir_temp = None,
     schedule = [Run 0 Resume, Run 0 (GetRaises ''reset'' None),
                 Run 0 Resume, Run 0 (GetRaises ''reset'' None),
                 Run 0 Resume, Run 0 (GetRaises ''reset'' None), Run 0 Resume],
     late_cleanup = [], final_faults = no_faults, late_final = [],
     clock_fallback = 1, http_get = Inl (RequestException ''connection refused'' None),
     body = []\<rparr>"

definition stuck_env :: env where
  "stuck_env = flaky_env\<lparr>final_faults := \<lparr>rmtree_raises = True, unlink_raises = False\<rparr>\<rparr>"

definition short_env :: env where
  "short_env = dead_env\<lparr>http_get := Inr (''https://example.org/model.bin'', CLAbsent),
     body := [FChunk 3 2]\<rparr>"

definition unmanaged_job :: job where
  "unmanaged_job = init ''https://example.org/model.bin'' 1 False None None
     (Some 5) False None"

text \<open>
  Both workers fail three times; the second one's last request is still in flight when
  the first one cancels.
\<close>

definition racing_env :: env where
  "racing_env = flaky_env\<lparr>schedule :=
     [Run 0 Resume, Run 1 Resume, Run 0 (GetRaises ''reset'' None),
      Run 1 (GetRaises ''late'' None),
      Run 0 Resume, Run 1 Resume, Run 0 (GetRaises ''reset'' None),
      Run 1 (GetRaises ''late'' None),
      Run 0 Resume, Run 1 Resume, Run 0 (GetRaises ''reset'' None), Run 0 Resume,
      Run 1 (GetRaises ''late'' None), Run 1 Resume]\<rparr>"

section \<open>Properties\<close>

subsection \<open>Segment calculation\<close>

lemma plan_loop_contiguous:
  "contiguous_from c (plan_loop t n sz i c)"
proof (induction t n sz i c rule: plan_loop.induct)
  case (1 t n sz i c)
  show ?case
    using "1.IH"
    by (subst plan_loop.simps) (simp add: Let_def seg_start_def seg_end_def)
qed

lemma plan_loop_done: "t \<le> c \<Longrightarrow> plan_loop t n sz i c = []"
  by (subst plan_loop.simps) simp

lemma plan_loop_nonempty_segs:
  "\<forall>s\<in>set (plan_loop t n sz i c). seg_start s \<le> seg_end s"
proof (induction t n sz i c rule: plan_loop.induct)
  case (1 t n sz i c)
  define e where "e = (if i = n - 1 then t - 1 else min (c + sz - 1) (t - 1))"
  show ?case
  proof (cases "\<not> n \<le> i \<and> \<not> t \<le> c \<and> c \<le> e \<and> e < t")
    case False
    then have "plan_loop t n sz i c = []"
      by (subst plan_loop.simps) (auto simp: Let_def e_def)
    then show ?thesis by simp
  next
    case True
    then have unfold: "plan_loop t n sz i c = (i, c, e) # plan_loop t n sz (i + 1) (e + 1)"
      by (subst plan_loop.simps) (simp add: Let_def e_def)
    have "\<forall>s\<in>set (plan_loop t n sz (i + 1) (e + 1)). seg_start s \<le> seg_end s"
      using "1.IH" [of c e] True by (simp add: e_def)
    then show ?thesis using True by (simp add: unfold seg_start_def seg_end_def)
  qed
qed

lemma starts_after_mono: "e' \<le> e \<Longrightarrow> starts_after e ss \<Longrightarrow> starts_after e' ss"
  by (induction ss) auto

lemma contiguous_non_overlapping:
  "contiguous_from c ss \<Longrightarrow> \<forall>s\<in>set ss. seg_start s \<le> seg_end s
     \<Longrightarrow> non_overlapping ss \<and> starts_after (c - 1) ss"
proof (induction ss arbitrary: c)
  case Nil
  then show ?case by simp
next
  case (Cons s ss)
  from Cons.prems have st: "seg_start s = c" and le: "seg_start s \<le> seg_end s"
    and rest: "contiguous_from (seg_end s + 1) ss" "\<forall>x\<in>set ss. seg_start x \<le> seg_end x"
    by simp_all
  from Cons.IH [OF rest] have ih: "non_overlapping ss" "starts_after (seg_end s) ss"
    by simp_all
  have "starts_after (c - 1) ss"
    using starts_after_mono [OF _ ih(2), of "c - 1"] st le by simp
  with ih st le show ?case by simp
qed

lemma contiguous_sum_len:
  "contiguous_from c ss \<Longrightarrow> ss \<noteq> [] \<Longrightarrow> sum_list (map seg_len ss) = seg_end (last ss) + 1 - c"
proof (induction ss arbitrary: c)
  case Nil
  then show ?case by simp
next
  case (Cons s ss)
  show ?case
  proof (cases "ss = []")
    case True
    with Cons.prems show ?thesis by (simp add: seg_len_def)
  next
    case False
    with Cons.prems Cons.IH [of "seg_end s + 1"] show ?thesis
      by (simp add: seg_len_def)
  qed
qed

lemma plan_loop_last:
  "i < n \<Longrightarrow> c < t \<Longrightarrow> 1 \<le> sz \<Longrightarrow>
     plan_loop t n sz i c \<noteq> [] \<and> seg_end (last (plan_loop t n sz i c)) = t - 1"
proof (induction "nat (n - i)" arbitrary: i c rule: less_induct)
  case less
  define e where "e = (if i = n - 1 then t - 1 else min (c + sz - 1) (t - 1))"
  have ok: "c \<le> e \<and> e < t" using less.prems by (auto simp: e_def)
  have unfold: "plan_loop t n sz i c = (i, c, e) # plan_loop t n sz (i + 1) (e + 1)"
    using less.prems ok by (subst plan_loop.simps) (simp add: Let_def e_def)
  show ?case
  proof (cases "i + 1 < n \<and> e + 1 < t")
    case True
    have "nat (n - (i + 1)) < nat (n - i)" using less.prems by simp
    then have "plan_loop t n sz (i + 1) (e + 1) \<noteq> [] \<and>
          seg_end (last (plan_loop t n sz (i + 1) (e + 1))) = t - 1"
      using less.hyps [of "i + 1" "e + 1"] True less.prems by simp
    then show ?thesis by (simp add: unfold)
  next
    case False
    then have last_one: "e = t - 1"
      using less.prems ok by (auto simp: e_def)
    have "plan_loop t n sz (i + 1) (e + 1) = []"
      using last_one by (simp add: plan_loop_done)
    then show ?thesis using last_one by (simp add: unfold seg_end_def)
  qed
qed

lemma plan_loop_butlast_len:
  "\<forall>s\<in>set (butlast (plan_loop t n sz i c)). seg_len s = sz"
proof (induction t n sz i c rule: plan_loop.induct)
  case (1 t n sz i c)
  define e where "e = (if i = n - 1 then t - 1 else min (c + sz - 1) (t - 1))"
  show ?case
  proof (cases "\<not> n \<le> i \<and> \<not> t \<le> c \<and> c \<le> e \<and> e < t")
    case False
    then have "plan_loop t n sz i c = []"
      by (subst plan_loop.simps) (auto simp: Let_def e_def)
    then show ?thesis by simp
  next
    case True
    then have unfold: "plan_loop t n sz i c = (i, c, e) # plan_loop t n sz (i + 1) (e + 1)"
      by (subst plan_loop.simps) (simp add: Let_def e_def)
    have ih: "\<forall>s\<in>set (butlast (plan_loop t n sz (i + 1) (e + 1))). seg_len s = sz"
      using "1.IH" [of c e] True by (simp add: e_def)
    show ?thesis
    proof (cases "plan_loop t n sz (i + 1) (e + 1) = []")
      case True
      then show ?thesis by (simp add: unfold)
    next
      case False
      then have "\<not> n \<le> i + 1 \<and> \<not> t \<le> e + 1"
        by (subst (asm) plan_loop.simps) (auto split: if_splits)
      then have "e = c + sz - 1" by (auto simp: e_def)
      then have "seg_len (i, c, e) = sz" by (simp add: seg_len_def seg_start_def seg_end_def)
      with ih False show ?thesis by (simp add: unfold)
    qed
  qed
qed

lemma plan_loop_whole:
  assumes "1 \<le> t" "1 \<le> n"
  shows "plan_loop t n t 0 0 = [(0, 0, t - 1)]"
proof -
  have "plan_loop t n t 0 0 = (0, 0, t - 1) # plan_loop t n t (0 + 1) (t - 1 + 1)"
    using assms by (subst plan_loop.simps) (simp add: Let_def)
  then show ?thesis by (simp add: plan_loop_done)
qed

text \<open>
  C2. For every total size \<open>t \<ge> 1\<close> and connection count \<open>n \<ge> 1\<close> the segment
  calculation yields segments that start at byte 0 and are contiguous (each starts one
  past the end of the one before), pairwise non-overlapping, with lengths that sum to
  \<open>t\<close>; every segment but the last has length \<open>t div n\<close>, and the last ends at
  \<open>t - 1\<close>.
\<close>

theorem plan_partition:
  assumes "1 \<le> t" and "1 \<le> n"
  shows "\<exists>segs. calc_segments t n = Inr segs \<and> segs \<noteq> []
           \<and> contiguous_from 0 segs \<and> non_overlapping segs
           \<and> sum_list (map seg_len segs) = t
           \<and> (\<forall>s\<in>set (butlast segs). seg_len s = t div n)
           \<and> seg_end (last segs) = t - 1"
proof -
  define sz where "sz = (if t div n = 0 then t else t div n)"
  define segs where "segs = plan_loop t n sz 0 0"
  have sz1: "1 \<le> sz"
  proof -
    have "0 \<le> t div n" using assms by (simp add: pos_imp_zdiv_nonneg_iff)
    then show ?thesis using assms by (auto simp: sz_def)
  qed
  have calc: "calc_segments t n = Inr segs"
    using assms by (simp add: calc_segments_def Let_def segs_def sz_def)
  have last: "segs \<noteq> []" "seg_end (last segs) = t - 1"
    using plan_loop_last [of 0 n 0 t sz] assms sz1 by (simp_all add: segs_def)
  have contig: "contiguous_from 0 segs"
    by (simp add: segs_def plan_loop_contiguous)
  have nonempty: "\<forall>s\<in>set segs. seg_start s \<le> seg_end s"
    by (simp add: segs_def plan_loop_nonempty_segs)
  have disj: "non_overlapping segs"
    using contiguous_non_overlapping [OF contig nonempty] by simp
  have total: "sum_list (map seg_len segs) = t"
    using contiguous_sum_len [OF contig last(1)] last(2) by simp
  have lens: "\<forall>s\<in>set (butlast segs). seg_len s = t div n"
  proof (cases "t div n = 0")
    case True
    then have "segs = [(0, 0, t - 1)]"
      using plan_loop_whole [OF assms] by (simp add: segs_def sz_def)
    then show ?thesis by simp
  next
    case False
    then show ?thesis using plan_loop_butlast_len [of t n sz 0 0]
      by (simp add: segs_def sz_def)
  qed
  from calc last contig disj total lens show ?thesis by blast
qed

theorem plan_partition_witness:
  "(1::int) \<le> 10 \<and> (1::int) \<le> 3
   \<and> (\<exists>segs. calc_segments 10 3 = Inr segs \<and> segs \<noteq> []
           \<and> contiguous_from 0 segs \<and> non_overlapping segs
           \<and> sum_list (map seg_len segs) = 10
           \<and> (\<forall>s\<in>set (butlast segs). seg_len s = 10 div 3)
           \<and> seg_end (last segs) = 10 - 1)"
proof -
  have h1: "(1::int) \<le> 10" and h2: "(1::int) \<le> 3" by simp_all
  from plan_partition [OF h1 h2] show ?thesis by simp
qed




subsection \<open>Cancellation and cleanup\<close>

lemma notify_fields [simp]:
  "cancel_event (notify u j) = cancel_event j"
  "error (notify u j) = error j"
  "temp_dir_exists (notify u j) = temp_dir_exists j"
  "output_exists (notify u j) = output_exists j"
  "total_size (notify u j) = total_size j"
  "downloaded (notify u j) = downloaded j"
  "part_size (notify u j) = part_size j"
  "part_files (notify u j) = part_files j"
  "output_size (notify u j) = output_size j"
  "connection_type (notify u j) = connection_type j"
  "manager_and_id (notify u j) = manager_and_id j"
  "num_connections (notify u j) = num_connections j"
  by (simp_all add: notify_def manager_and_id_def)

lemma cancel_sets_flag [simp]: "cancel_event (cancel j)"
  by (simp add: cancel_def)

lemma cancel_idem: "cancel_event j \<Longrightarrow> cancel j = j"
  by (simp add: cancel_def)

text \<open>
  C4 at the state in which a worker that has used up its tries calls \<open>cancel()\<close>: the
  flag is set, and the segment's error, recorded just before, is replaced by the default
  one. The claim says an error recorded before the cancellation is kept.
\<close>

theorem cancel_overwrites_error:
  "error (cancel (single_job\<lparr>error := Some (SegmentFailedTry 0 3 (ExcText ''reset'') NoSuffix)\<rparr>))
     = Some CancelledByUser
   \<and> cancel_event (cancel (single_job\<lparr>error := Some (SegmentFailedTry 0 3 (ExcText ''reset'') NoSuffix)\<rparr>))"
  by (simp add: cancel_def single_job_def init_def)

text \<open>
  C9, as stated, fails when the removal of the output file raises: the start of
  \<open>download\<close> finds the leftover temp directory, removes it, and the file at the output
  path stays (the handler prints a warning).
\<close>

theorem leftover_output_counterexample:
  "temp_dir_exists leftover_job \<and> output_exists leftover_job
   \<and> \<not> temp_dir_exists (download_init unlink_fails 1 leftover_job)
   \<and> output_exists (download_init unlink_fails 1 leftover_job)"
  by (simp add: download_init_def cleanup_temp_def Let_def leftover_job_def init_def
      unlink_fails_def)

text \<open>
  C9, amended. When a temp directory is left over at the job's temp path, the start of
  \<open>download\<close> tries to remove it and also any file at the output path, whatever that
  file is, before the probe runs: afterwards the temp directory exists exactly when its
  removal raised, and the output file exists exactly when it existed before and its
  removal raised.
\<close>

theorem leftover_temp_removes_output:
  "temp_dir_exists j \<Longrightarrow>
     (temp_dir_exists (download_init f now j) \<longleftrightarrow> rmtree_raises f)
     \<and> (output_exists (download_init f now j) \<longleftrightarrow> output_exists j \<and> unlink_raises f)"
  by (simp add: download_init_def cleanup_temp_def Let_def)

theorem leftover_temp_removes_output_witness:
  "temp_dir_exists leftover_job \<and> output_exists leftover_job
   \<and> \<not> temp_dir_exists (download_init no_faults 1 leftover_job)
   \<and> \<not> output_exists (download_init no_faults 1 leftover_job)"
proof -
  have h: "temp_dir_exists leftover_job" by (simp add: leftover_job_def init_def)
  from leftover_temp_removes_output [OF h, of no_faults 1] h show ?thesis
    by (simp add: leftover_job_def init_def no_faults_def)
qed

subsection \<open>The range probe\<close>

lemma lower_none: "lower ''none'' \<noteq> ''bytes''"
  by code_simp

text \<open>
  C5, as stated, fails in two places. A header value \<open>BYTES\<close> is not the text
  \<open>bytes\<close>, and the probe reports range support for it. And a response that passed
  the status check with the header \<open>bytes\<close> is still reported as without range support
  when the size is unknown and its content-length is not an integer.
\<close>

theorem probe_counterexample:
  "get_range_support_and_url shouting_server single_job
     = Inr (''https://example.org/model.bin'', True, single_job)
   \<and> ''BYTES'' \<noteq> ''bytes''
   \<and> get_range_support_and_url garbled_server unknown_size_job
     = Inr (''https://example.org/model.bin'', False,
            unknown_size_job\<lparr>error := Some (HeadUnexpected ''invalid literal for int()'')\<rparr>)"
proof -
  have l: "lower ''BYTES'' = ''bytes''" "lower ''bytes'' = ''bytes''" by code_simp+
  show ?thesis
    by (simp add: get_range_support_and_url_def head_try_def py_int_header_def Let_def l
        shouting_server_def garbled_server_def single_job_def unknown_size_job_def init_def
        exc_text_def)
qed

text \<open>
  C5, amended. The probe never raises: it returns. When the request or the status
  check raises (network failure, timeout, rejected status), it returns the original URL
  and no range support; so it does when the size is unknown and the content-length
  header is not an integer. Otherwise it returns the response's URL, with range support
  exactly when the Accept-Ranges header is present and its lower-cased value is
  \<open>bytes\<close>.
\<close>

theorem probe_never_raises:
  "(\<exists>u s j'. get_range_support_and_url server j = Inr (u, s, j'))
   \<and> (\<forall>e. server (initial_url j) (get_request_headers j None) = Inl e
        \<longrightarrow> (\<exists>j'. get_range_support_and_url server j = Inr (initial_url j, False, j')))
   \<and> (\<forall>r t. server (initial_url j) (get_request_headers j None) = Inr r
          \<and> total_size j \<le> 0 \<and> content_length r = CLInvalid t
        \<longrightarrow> (\<exists>j'. get_range_support_and_url server j = Inr (initial_url j, False, j')))
   \<and> (\<forall>r. server (initial_url j) (get_request_headers j None) = Inr r
          \<and> (total_size j \<le> 0 \<longrightarrow> (\<forall>t. content_length r \<noteq> CLInvalid t))
        \<longrightarrow> (\<exists>j'. get_range_support_and_url server j
               = Inr (resp_url r,
                      (case accept_ranges r of None \<Rightarrow> False | Some v \<Rightarrow> lower v = ''bytes''),
                      j')))"
  using lower_none
  by (auto simp: get_range_support_and_url_def head_try_def py_int_header_def Let_def
           split: sum.splits exc.splits length_header.splits option.splits prod.splits)

theorem probe_never_raises_witness:
  "(http_head dead_env (initial_url single_job) (get_request_headers single_job None)
      = Inl (Timeout ''timed out'')
    \<and> (\<exists>j'. get_range_support_and_url (http_head dead_env) single_job
              = Inr (initial_url single_job, False, j')))
   \<and> (total_size unknown_size_job \<le> 0
    \<and> (\<exists>j'. get_range_support_and_url garbled_server unknown_size_job
              = Inr (initial_url unknown_size_job, False, j')))
   \<and> (\<exists>j'. get_range_support_and_url shouting_server single_job
              = Inr (initial_url single_job, lower ''BYTES'' = ''bytes'', j'))"
proof -
  have a: "http_head dead_env (initial_url single_job) (get_request_headers single_job None)
      = Inl (Timeout ''timed out'')"
    by (simp add: dead_env_def)
  have b: "garbled_server (initial_url unknown_size_job)
             (get_request_headers unknown_size_job None)
           = Inr \<lparr>resp_url = initial_url unknown_size_job, accept_ranges = Some ''bytes'',
                  content_length = CLInvalid ''invalid literal for int()''\<rparr>"
    by (simp add: garbled_server_def)
  have b': "total_size unknown_size_job \<le> 0"
    by (simp add: unknown_size_job_def init_def)
  have c: "shouting_server (initial_url single_job) (get_request_headers single_job None)
           = Inr \<lparr>resp_url = initial_url single_job, accept_ranges = Some ''BYTES'',
                  content_length = CLAbsent\<rparr>"
    by (simp add: shouting_server_def)
  from probe_never_raises [of "http_head dead_env" single_job] a
  have 1: "\<exists>j'. get_range_support_and_url (http_head dead_env) single_job
              = Inr (initial_url single_job, False, j')" by simp
  from probe_never_raises [of garbled_server unknown_size_job] b b'
  have 2: "\<exists>j'. get_range_support_and_url garbled_server unknown_size_job
              = Inr (initial_url unknown_size_job, False, j')" by simp
  from probe_never_raises [of shouting_server single_job] c
  have 3: "\<exists>j'. get_range_support_and_url shouting_server single_job
              = Inr (initial_url single_job, lower ''BYTES'' = ''bytes'', j')" by simp
  from a b' 1 2 3 show ?thesis by simp
qed

subsection \<open>Progress\<close>



subsection \<open>Merging\<close>

lemma copy_parts_all:
  "\<forall>p\<in>set ps. part_size j p \<noteq> None \<Longrightarrow>
     copy_parts ps j = (True, j\<lparr>output_size := output_size j
        + sum_list (map (\<lambda>p. case part_size j p of None \<Rightarrow> 0 | Some n \<Rightarrow> n) ps)\<rparr>)"
proof (induction ps arbitrary: j)
  case Nil
  then show ?case by simp
next
  case (Cons p ps)
  then obtain n where n: "part_size j p = Some n" by auto
  have "\<forall>q\<in>set ps. part_size (j\<lparr>output_size := output_size j + n\<rparr>) q \<noteq> None"
    using Cons.prems by simp
  from Cons.IH [OF this] n show ?case by (simp add: add.assoc)
qed

lemma merge_parts_all:
  assumes "part_files j \<noteq> []" "\<forall>p\<in>set (part_files j). part_size j p \<noteq> None"
  shows "merge_parts j =
     (if total_size j > 0 \<and> \<bar>concatenated_size j - total_size j\<bar> > 1
      then (False, j\<lparr>output_exists := True, output_size := concatenated_size j,
                     error := Some (MergedSizeDiffers (concatenated_size j) (total_size j))\<rparr>)
      else (True, j\<lparr>output_exists := True, output_size := concatenated_size j\<rparr>))"
proof -
  have "\<forall>p\<in>set (sort (part_files j)).
          part_size (j\<lparr>output_exists := True, output_size := 0\<rparr>) p \<noteq> None"
    using assms(2) by simp
  from copy_parts_all [OF this] assms(1) show ?thesis
    by (simp add: merge_parts_def Let_def concatenated_size_def)
qed

text \<open>
  C6. A merge over part files that all exist, for a known positive total: when the
  concatenated size differs from the total by more than one byte, \<open>merge_parts\<close>
  returns False with the size-mismatch error, the checks after the download return
  False, and the final status is not "completed"; a difference of at most one byte is
  accepted.
\<close>

theorem merge_size_check:
  assumes "part_files j \<noteq> []" and "\<forall>p\<in>set (part_files j). part_size j p \<noteq> None"
      and "total_size j > 0"
  shows "(\<bar>concatenated_size j - total_size j\<bar> > 1 \<longrightarrow>
            fst (merge_parts j) = False
          \<and> error (snd (merge_parts j))
              = Some (MergedSizeDiffers (concatenated_size j) (total_size j))
          \<and> fst (post_download expected j) = False
          \<and> u_status (final_update (fst (post_download expected j))
                        (cleanup_temp f (fst (post_download expected j))
                           (snd (post_download expected j)))) \<noteq> Some Completed)
       \<and> (\<bar>concatenated_size j - total_size j\<bar> \<le> 1 \<longrightarrow> fst (merge_parts j) = True)"
  using merge_parts_all [OF assms(1,2)] assms(3)
  by (auto simp: post_download_def Let_def final_update_def cleanup_temp_def)

theorem merge_size_check_witness:
  "part_files merge_job \<noteq> [] \<and> part_size merge_job 0 = Some 3 \<and> part_size merge_job 1 = Some 4
   \<and> total_size merge_job > 0
   \<and> \<bar>concatenated_size merge_job - total_size merge_job\<bar> > 1
   \<and> fst (merge_parts merge_job) = False
   \<and> error (snd (merge_parts merge_job)) = Some (MergedSizeDiffers 7 10)"
proof -
  have h1: "part_files merge_job \<noteq> []"
    and h2: "\<forall>p\<in>set (part_files merge_job). part_size merge_job p \<noteq> None"
    and h3: "total_size merge_job > 0"
    by (simp_all add: merge_job_def)
  have c: "concatenated_size merge_job = 7" "total_size merge_job = 10"
    by (simp_all add: concatenated_size_def merge_job_def)
  have p: "part_size merge_job 0 = Some 3" "part_size merge_job 1 = Some 4"
    by (simp_all add: merge_job_def)
  from merge_size_check [OF h1 h2 h3, of 10] c h1 h3 p show ?thesis by simp
qed

subsection \<open>Frames of the operations\<close>

lemma manager_and_id_cong:
  "manager j' = manager j \<Longrightarrow> download_id j' = download_id j
     \<Longrightarrow> manager_and_id j' = manager_and_id j"
  by (simp add: manager_and_id_def)

lemma emits_refl [simp]: "emits j j"
  by (simp add: emits_def)

lemma emits_trans: "emits j j' \<Longrightarrow> emits j' j'' \<Longrightarrow> emits j j''"
  by (auto simp: emits_def)

lemma emits_same:
  "manager j' = manager j \<Longrightarrow> download_id j' = download_id j
     \<Longrightarrow> notifications j' = notifications j \<Longrightarrow> emits j j'"
  by (simp add: emits_def manager_and_id_def)

lemma emits_notify: "sparse u \<Longrightarrow> emits j (notify u j)"
  by (simp add: emits_def notify_def manager_and_id_def)

lemma emits_cancel: "emits j (cancel j)"
proof (cases "cancel_event j")
  case True
  then show ?thesis by (simp add: cancel_def)
next
  case False
  have "emits j (j\<lparr>cancel_event := True, error := Some CancelledByUser\<rparr>)"
    by (simp add: emits_same)
  moreover have "sparse (no_update\<lparr>u_status := Some Cancelled,
      u_error := Some (Some CancelledByUser)\<rparr>)"
    by (simp add: sparse_def no_update_def)
  ultimately show ?thesis using False
    by (auto simp: cancel_def intro: emits_trans emits_notify)
qed

lemma cancel_frame [simp]:
  "temp_dir_exists (cancel j) = temp_dir_exists j"
  "output_exists (cancel j) = output_exists j"
  "total_size (cancel j) = total_size j"
  "downloaded (cancel j) = downloaded j"
  "connection_type (cancel j) = connection_type j"
  by (simp_all add: cancel_def)

lemma emits_update_progress: "emits j (update_progress n t j)"
  by (auto simp: update_progress_def Let_def emits_def notify_def manager_and_id_def
      sparse_def no_update_def)

lemma update_progress_frame [simp]:
  "cancel_event (update_progress n t j) = cancel_event j"
  "error (update_progress n t j) = error j"
  "temp_dir_exists (update_progress n t j) = temp_dir_exists j"
  "output_exists (update_progress n t j) = output_exists j"
  "total_size (update_progress n t j) = total_size j"
  "connection_type (update_progress n t j) = connection_type j"
  by (simp_all add: update_progress_def Let_def)

lemma cancel_error: "error j \<noteq> None \<Longrightarrow> error (cancel j) \<noteq> None"
  by (simp add: cancel_def)

lemma retry_or_give_up_frame: "step_frame th j (retry_or_give_up d sfx th j)"
proof (cases "retries \<le> current_try th + 1")
  case True
  let ?j = "j\<lparr>error := Some (SegmentFailedTry (segment_index th) (current_try th + 1) d sfx)\<rparr>"
  have "emits j ?j" by (simp add: emits_same)
  moreover have "retry_or_give_up d sfx th j
      = (th\<lparr>current_try := current_try th + 1, phase := Escalating\<rparr>, ?j)"
    using True by (simp add: retry_or_give_up_def Let_def)
  ultimately show ?thesis by (simp add: step_frame_def)
next
  case False
  then have "retry_or_give_up d sfx th j
      = (th\<lparr>current_try := current_try th + 1, phase := LoopHead\<rparr>, j)"
    by (simp add: retry_or_give_up_def Let_def)
  with False show ?thesis by (simp add: step_frame_def)
qed

lemma segment_except_cases:
  "(\<exists>sfx. segment_except d es r th j = retry_or_give_up d sfx th j)
   \<or> segment_except d es r th j
       = (th\<lparr>current_try := current_try th + 1, phase := Escalating\<rparr>,
          j\<lparr>error := Some (SegmentFailed (segment_index th) d RangeNotSatisfiable)\<rparr>)"
proof (cases es)
  case None
  then have "segment_except d es r th j = retry_or_give_up d NoSuffix th j"
    by (simp add: segment_except_def)
  then show ?thesis by blast
next
  case (Some st)
  show ?thesis
  proof (cases "st = 401")
    case True
    with Some have "segment_except d es r th j = retry_or_give_up d Unauthorized th j"
      by (simp add: segment_except_def)
    then show ?thesis by blast
  next
    case n401: False
    show ?thesis
    proof (cases "st = 403")
      case True
      with Some n401 have "segment_except d es r th j = retry_or_give_up d Forbidden th j"
        by (simp add: segment_except_def)
      then show ?thesis by blast
    next
      case n403: False
      show ?thesis
      proof (cases "response_and_416 r")
        case True
        with Some n401 n403 show ?thesis by (simp add: segment_except_def)
      next
        case False
        with Some n401 n403
        have "segment_except d es r th j = retry_or_give_up d NoSuffix th j"
          by (simp add: segment_except_def)
        then show ?thesis by blast
      qed
    qed
  qed
qed

lemma step_frame_except: "step_frame th j (segment_except d es r th j)"
proof -
  from segment_except_cases [of d es r th j] show ?thesis
  proof
    assume "\<exists>sfx. segment_except d es r th j = retry_or_give_up d sfx th j"
    then obtain sfx where "segment_except d es r th j = retry_or_give_up d sfx th j" ..
    then show ?thesis by (simp add: retry_or_give_up_frame)
  next
    let ?j = "j\<lparr>error := Some (SegmentFailed (segment_index th) d RangeNotSatisfiable)\<rparr>"
    assume "segment_except d es r th j
       = (th\<lparr>current_try := current_try th + 1, phase := Escalating\<rparr>, ?j)"
    moreover have "emits j ?j" by (simp add: emits_same)
    ultimately show ?thesis by (simp add: step_frame_def)
  qed
qed

lemma step_frame_critical: "step_frame th j (segment_critical t th j)"
proof -
  have "emits j (j\<lparr>error := Some (SegmentCritical (segment_index th) t)\<rparr>)"
    by (simp add: emits_same)
  then show ?thesis by (simp add: step_frame_def segment_critical_def)
qed

lemma step_frame_id: "step_frame th j (th, j)"
  by (simp add: step_frame_def)

lemma step_frame_same: "phase th \<noteq> Escalating \<Longrightarrow> step_frame th j (th\<lparr>phase := p\<rparr>, j)"
  by (simp add: step_frame_def)

lemma step_frame_open:
  "phase th \<noteq> Escalating \<Longrightarrow> step_frame th j (th\<lparr>phase := p\<rparr>, j\<lparr>part_size := m\<rparr>)"
  by (simp add: step_frame_def emits_same)

lemma step_frame_write:
  assumes "phase th \<noteq> Escalating"
  shows "step_frame th j
     (th\<lparr>phase := p\<rparr>,
      update_progress n t (if temp_dir_exists j then j\<lparr>part_size := m\<rparr> else j))"
proof -
  let ?j = "(if temp_dir_exists j then j\<lparr>part_size := m\<rparr> else j)"
  have "emits j ?j" by (simp add: emits_same)
  then have "emits j (update_progress n t ?j)"
    by (rule emits_trans) (rule emits_update_progress)
  then show ?thesis using assms by (simp add: step_frame_def)
qed

lemma step_frame_escalate: "step_frame th j (th\<lparr>phase := Returned\<rparr>, cancel j)"
  by (simp add: step_frame_def emits_cancel cancel_error)

lemmas step_frames = step_frame_same step_frame_id step_frame_except step_frame_critical
  step_frame_open step_frame_write step_frame_escalate

lemma step_frame_requesting:
  assumes "phase th = Requesting"
  shows "step_frame th j (download_segment_step ev th j)"
  using assms
  by (cases ev) (simp_all add: download_segment_step_def step_frames)

lemma step_frame_streaming:
  assumes "phase th = Streaming st w"
  shows "step_frame th j (download_segment_step ev th j)"
  using assms
  by (cases ev) (simp_all add: download_segment_step_def Let_def step_frames)

lemma step_frame_all: "step_frame th j (download_segment_step ev th j)"
proof (cases "phase th")
  case LoopHead
  then show ?thesis by (simp add: download_segment_step_def step_frames)
next
  case Requesting
  then show ?thesis by (rule step_frame_requesting)
next
  case (Streaming st w)
  then show ?thesis by (rule step_frame_streaming)
next
  case (Writing st w n t)
  then show ?thesis by (simp add: download_segment_step_def step_frames)
next
  case Escalating
  then show ?thesis by (simp add: download_segment_step_def step_frames)
next
  case Returned
  then show ?thesis by (simp add: download_segment_step_def step_frames)
qed

lemma tries_inv_update:
  assumes inv: "tries_inv ths j" and k: "k < length ths"
    and mono: "cancel_event j \<longrightarrow> cancel_event j'"
    and new: "retries \<le> current_try th' \<and> phase th' \<noteq> Escalating \<longrightarrow>
               (retries \<le> current_try (ths ! k) \<and> phase (ths ! k) \<noteq> Escalating)
               \<or> cancel_event j'"
  shows "tries_inv (ths[k := th']) j'"
  unfolding tries_inv_def
proof (intro ballI impI)
  fix th assume mem: "th \<in> set (ths[k := th'])"
    and r: "retries \<le> current_try th \<and> phase th \<noteq> Escalating"
  from mem have "th = th' \<or> th \<in> set ths"
    using set_update_subset_insert [of ths k th'] by auto
  then show "cancel_event j'"
  proof
    assume "th = th'"
    with r new have "(retries \<le> current_try (ths ! k) \<and> phase (ths ! k) \<noteq> Escalating)
        \<or> cancel_event j'" by simp
    moreover have "ths ! k \<in> set ths" using k by simp
    ultimately show ?thesis using inv mono by (auto simp: tries_inv_def)
  next
    assume "th \<in> set ths"
    with inv r mono show ?thesis by (auto simp: tries_inv_def)
  qed
qed

lemma sched_step_frame: "run_frame ths j (sched_step s (ths, j))"
proof (cases s)
  case ExternalCancel
  then show ?thesis by (simp add: run_frame_def emits_cancel tries_inv_def cancel_error)
next
  case (Run k ev)
  show ?thesis
  proof (cases "k < length ths")
    case False
    with Run show ?thesis by (simp add: run_frame_def)
  next
    case True
    obtain th' j' where st: "download_segment_step ev (ths ! k) j = (th', j')"
      by (cases "download_segment_step ev (ths ! k) j")
    have f: "step_frame (ths ! k) j (th', j')"
      using step_frame_all [of "ths ! k" j ev] st by simp
    have res: "sched_step s (ths, j) = (ths[k := th'], j')"
      using Run True st by simp
    have "tries_inv ths j \<longrightarrow> tries_inv (ths[k := th']) j'"
      using tries_inv_update [of ths j k j' th'] True f by (simp add: step_frame_def)
    with f show ?thesis by (simp add: res run_frame_def step_frame_def)
  qed
qed

lemma run_frame_trans:
  assumes "run_frame ths j (ths1, j1)" and "run_frame ths1 j1 r"
  shows "run_frame ths j r"
proof -
  from assms have "emits j j1" "emits j1 (snd r)" by (simp_all add: run_frame_def)
  then have "emits j (snd r)" by (rule emits_trans)
  with assms show ?thesis by (simp add: run_frame_def)
qed

lemma run_threads_frame: "run_frame ths j (run_threads ss (ths, j))"
proof (induction ss arbitrary: ths j)
  case Nil
  show ?case by (simp add: run_frame_def)
next
  case (Cons s ss)
  obtain ths1 j1 where s1: "sched_step s (ths, j) = (ths1, j1)"
    by (cases "sched_step s (ths, j)")
  have a: "run_frame ths j (ths1, j1)" using sched_step_frame [of ths j s] s1 by simp
  have b: "run_frame ths1 j1 (run_threads ss (ths1, j1))" by (rule Cons.IH)
  from run_frame_trans [OF a b] s1 show ?case by simp
qed

lemma run_late_frame: "run_frame ths j (run_late steps (ths, j))"
  by (simp add: run_late_def run_threads_frame)

lemma tries_inv_start: "tries_inv (start_threads segs j) j"
  by (simp add: tries_inv_def start_threads_def new_thread_def retries_def)

lemma wait_frame:
  assumes "wait_for_threads ss ths j = Some (ths', j')"
  shows "emits j j' \<and> temp_dir_exists j' = temp_dir_exists j
    \<and> output_exists j' = output_exists j \<and> (cancel_event j \<longrightarrow> cancel_event j')"
proof (cases "ths = []")
  case True
  with assms show ?thesis by (simp add: wait_for_threads_def)
next
  case False
  obtain ths1 j1 where r: "run_threads ss (ths, j) = (ths1, j1)"
    by (cases "run_threads ss (ths, j)")
  have f: "run_frame ths j (ths1, j1)" using run_threads_frame [of ths j ss] r by simp
  from assms False r
  have "j' = j1 \<or> j' = j1\<lparr>error := (case error j1 of None \<Rightarrow> Some CancelledPlain
                                       | Some e \<Rightarrow> Some e)\<rparr>"
    by (auto simp: wait_for_threads_def split: if_splits)
  then show ?thesis
  proof
    assume "j' = j1" with f show ?thesis by (simp add: run_frame_def)
  next
    assume j': "j' = j1\<lparr>error := (case error j1 of None \<Rightarrow> Some CancelledPlain
                                       | Some e \<Rightarrow> Some e)\<rparr>"
    then have "emits j1 j'" by (simp add: emits_same)
    moreover from f have "emits j j1" by (simp add: run_frame_def)
    ultimately have "emits j j'" by (rule emits_trans [rotated])
    with f j' show ?thesis by (simp add: run_frame_def)
  qed
qed

lemma copy_parts_frame:
  "copy_parts ps j = (ok, j') \<Longrightarrow>
     notifications j' = notifications j \<and> manager j' = manager j
     \<and> download_id j' = download_id j \<and> temp_dir_exists j' = temp_dir_exists j
     \<and> output_exists j' = output_exists j \<and> cancel_event j' = cancel_event j"
proof (induction ps arbitrary: j)
  case Nil
  then show ?case by auto
next
  case (Cons p ps)
  show ?case
  proof (cases "part_size j p")
    case None
    with Cons.prems show ?thesis by (auto split: if_splits)
  next
    case (Some n)
    with Cons.prems have "copy_parts ps (j\<lparr>output_size := output_size j + n\<rparr>) = (ok, j')"
      by simp
    from Cons.IH [OF this] show ?thesis by simp
  qed
qed

lemma merge_parts_frame:
  assumes "merge_parts j = (ok, j')"
  shows "emits j j' \<and> temp_dir_exists j' = temp_dir_exists j
     \<and> cancel_event j' = cancel_event j \<and> (ok \<longrightarrow> output_exists j')"
proof (cases "part_files j = []")
  case True
  with assms show ?thesis
    by (auto simp: merge_parts_def emits_same split: if_splits)
next
  case False
  let ?j0 = "j\<lparr>output_exists := True, output_size := 0\<rparr>"
  obtain ok1 j1 where c: "copy_parts (sort (part_files j)) ?j0 = (ok1, j1)"
    by (cases "copy_parts (sort (part_files j)) ?j0")
  note f = copy_parts_frame [OF c]
  from assms False c
  have "j' = j1 \<or> j' = j1\<lparr>error := Some (MergedSizeDiffers (output_size j1) (total_size j1))\<rparr>"
    by (cases ok1) (auto simp: merge_parts_def Let_def split: if_splits)
  with f show ?thesis by (auto simp: emits_same)
qed

lemma post_download_frame:
  assumes "post_download x j = (ok, j')"
  shows "emits j j' \<and> temp_dir_exists j' = temp_dir_exists j
     \<and> cancel_event j' = cancel_event j \<and> (ok \<longrightarrow> output_exists j')
     \<and> (cancel_event j \<longrightarrow> \<not> ok)"
proof -
  let ?j1 = "(if cancel_event j then j
                else if error j \<noteq> None then j
                else if downloaded j \<noteq> x \<and> x > 0
                then j\<lparr>error := Some (MultiSizeMismatch x (downloaded j))\<rparr>
                else j)"
  have e1: "emits j ?j1 \<and> temp_dir_exists ?j1 = temp_dir_exists j
     \<and> cancel_event ?j1 = cancel_event j \<and> output_exists ?j1 = output_exists j"
    by (simp add: emits_same)
  show ?thesis
  proof (cases "error ?j1 = None \<and> \<not> cancel_event ?j1")
    case True
    with assms have m: "merge_parts ?j1 = (ok, j')"
      by (simp add: post_download_def Let_def)
    from merge_parts_frame [OF m] e1 True show ?thesis
      by (auto intro: emits_trans)
  next
    case False
    with assms have "ok = False" "j' = ?j1"
      by (auto simp: post_download_def Let_def)
    with e1 show ?thesis by simp
  qed
qed

lemma fallback_stream_frame:
  "fallback_stream es j = (x, j') \<Longrightarrow>
     emits j j' \<and> temp_dir_exists j' = temp_dir_exists j
     \<and> output_exists j' = output_exists j \<and> (cancel_event j \<longrightarrow> cancel_event j')
     \<and> connection_type j' = connection_type j \<and> total_size j' = total_size j"
proof (induction es j rule: fallback_stream.induct)
  case (1 j)
  then show ?case by simp
next
  case (2 n t es j)
  show ?case
  proof (cases "cancel_event j")
    case True
    with "2.prems" show ?thesis by simp
  next
    case False
    let ?j = "(if n \<noteq> 0
              then update_progress (int n) t (j\<lparr>output_size := output_size j + int n\<rparr>)
              else j)"
    have "emits j (j\<lparr>output_size := output_size j + int n\<rparr>)" by (simp add: emits_same)
    then have "emits j (update_progress (int n) t (j\<lparr>output_size := output_size j + int n\<rparr>))"
      by (rule emits_trans) (rule emits_update_progress)
    then have e: "emits j ?j" by simp
    from "2.prems" False have "fallback_stream es ?j = (x, j')" by simp
    from "2.IH" [OF False this]
    have ih: "emits ?j j' \<and> temp_dir_exists j' = temp_dir_exists ?j
     \<and> output_exists j' = output_exists ?j \<and> (cancel_event ?j \<longrightarrow> cancel_event j')
     \<and> connection_type j' = connection_type ?j \<and> total_size j' = total_size ?j" .
    have f: "temp_dir_exists ?j = temp_dir_exists j" "output_exists ?j = output_exists j"
      "cancel_event ?j = cancel_event j" "connection_type ?j = connection_type j"
      "total_size ?j = total_size j"
      by simp_all
    from ih have "emits ?j j'" by simp
    with e have "emits j j'" by (rule emits_trans)
    with ih show ?thesis unfolding f by simp
  qed
next
  case (3 es j)
  then have "fallback_stream es (cancel j) = (x, j')" by simp
  from "3.IH" [OF this]
  have ih: "emits (cancel j) j' \<and> temp_dir_exists j' = temp_dir_exists j
     \<and> output_exists j' = output_exists j \<and> cancel_event j'
     \<and> connection_type j' = connection_type j \<and> total_size j' = total_size j"
    by simp
  then have "emits (cancel j) j'" by simp
  with emits_cancel have "emits j j'" by (rule emits_trans)
  with ih show ?case by simp
next
  case (4 e es j)
  then show ?case by simp
qed

lemma fallback_except_frame:
  "emits j (fallback_except e j) \<and> temp_dir_exists (fallback_except e j) = temp_dir_exists j
   \<and> cancel_event (fallback_except e j) = cancel_event j
   \<and> output_exists (fallback_except e j) = output_exists j"
  by (cases e) (simp_all add: fallback_except_def emits_same)

lemma fallback_ok_fail:
  "emits j j' \<Longrightarrow> temp_dir_exists j' = temp_dir_exists j
     \<Longrightarrow> (cancel_event j \<longrightarrow> cancel_event j') \<Longrightarrow> fallback_ok j (False, j')"
  by (simp add: fallback_ok_def)

lemma fallback_ok_except:
  assumes "emits j j'" "temp_dir_exists j' = temp_dir_exists j"
    "cancel_event j \<longrightarrow> cancel_event j'"
  shows "fallback_ok j (False, fallback_except e j')"
proof -
  from fallback_except_frame [of j' e] have "emits j' (fallback_except e j')" by simp
  with assms(1) have "emits j (fallback_except e j')" by (rule emits_trans)
  with assms fallback_except_frame [of j' e] show ?thesis
    by (simp add: fallback_ok_fail)
qed

lemma fallback_body_frame: "fallback_ok j (fallback_body bd j)"
proof -
  let ?j0 = "j\<lparr>output_exists := True, output_size := 0\<rparr>"
  obtain x j5 where s: "fallback_stream bd ?j0 = (x, j5)"
    by (cases "fallback_stream bd ?j0")
  from fallback_stream_frame [OF s]
  have fs: "emits ?j0 j5" "temp_dir_exists j5 = temp_dir_exists j" "output_exists j5"
    "cancel_event j \<longrightarrow> cancel_event j5" "connection_type j5 = connection_type j"
    by simp_all
  have "emits j ?j0" by (simp add: emits_same)
  then have e5: "emits j j5" using fs(1) by (rule emits_trans)
  show ?thesis
  proof (cases x)
    case StreamCancelled
    with s e5 fs show ?thesis by (simp add: fallback_body_def fallback_ok_fail)
  next
    case (StreamRaised e)
    with s fallback_ok_except [OF e5 fs(2) fs(4), of e] show ?thesis
      by (simp add: fallback_body_def)
  next
    case StreamDone
    let ?j6 = "(if total_size j5 > 0 \<and> downloaded j5 \<noteq> total_size j5
                then j5\<lparr>error := Some (FallbackSizeMismatch (total_size j5) (downloaded j5))\<rparr>
                else j5)"
    have "emits j5 ?j6" by (simp add: emits_same)
    with e5 have "emits j ?j6" by (rule emits_trans)
    moreover have "fallback_body bd j = (True, ?j6)"
      using s StreamDone by (simp add: fallback_body_def)
    ultimately show ?thesis using fs by (auto simp: fallback_ok_def)
  qed
qed

lemma fallback_reset_frame:
  "emits j (fallback_reset now j) \<and> temp_dir_exists (fallback_reset now j) = temp_dir_exists j
   \<and> cancel_event (fallback_reset now j) = cancel_event j
   \<and> connection_type (fallback_reset now j) = Single"
proof -
  let ?j1 = "notify (no_update\<lparr>u_connection_type := Some Single\<rparr>)
                 (j\<lparr>connection_type := Single\<rparr>)"
  have "sparse (no_update\<lparr>u_connection_type := Some Single\<rparr>)"
    by (simp add: sparse_def no_update_def)
  then have "emits (j\<lparr>connection_type := Single\<rparr>) ?j1" by (rule emits_notify)
  moreover have "emits j (j\<lparr>connection_type := Single\<rparr>)" by (simp add: emits_same)
  ultimately have e1: "emits j ?j1" by (rule emits_trans [rotated])
  have "emits ?j1 (fallback_reset now j)"
    by (simp add: fallback_reset_def Let_def emits_same)
  with e1 have "emits j (fallback_reset now j)" by (rule emits_trans)
  then show ?thesis by (simp add: fallback_reset_def Let_def)
qed

lemma fallback_download_frame:
  "emits j (snd (fallback_download now get bd j))
   \<and> temp_dir_exists (snd (fallback_download now get bd j)) = temp_dir_exists j
   \<and> (cancel_event j \<longrightarrow> cancel_event (snd (fallback_download now get bd j)))
   \<and> (fst (fallback_download now get bd j) \<longrightarrow>
        output_exists (snd (fallback_download now get bd j))
        \<and> connection_type (snd (fallback_download now get bd j)) = Single
        \<and> (total_size (snd (fallback_download now get bd j)) > 0
             \<and> downloaded (snd (fallback_download now get bd j))
                 \<noteq> total_size (snd (fallback_download now get bd j)) \<longrightarrow>
             error (snd (fallback_download now get bd j))
               = Some (FallbackSizeMismatch
                         (total_size (snd (fallback_download now get bd j)))
                         (downloaded (snd (fallback_download now get bd j))))))"
proof -
  define j2 where "j2 = fallback_reset now j"
  from fallback_reset_frame [of j now]
  have f2: "emits j j2" "temp_dir_exists j2 = temp_dir_exists j"
    "cancel_event j \<longrightarrow> cancel_event j2" "connection_type j2 = Single"
    by (simp_all add: j2_def)
  have goal: "emits j (snd r) \<and> temp_dir_exists (snd r) = temp_dir_exists j
     \<and> (cancel_event j \<longrightarrow> cancel_event (snd r))
     \<and> (fst r \<longrightarrow> output_exists (snd r) \<and> connection_type (snd r) = Single
          \<and> (total_size (snd r) > 0 \<and> downloaded (snd r) \<noteq> total_size (snd r) \<longrightarrow>
               error (snd r)
                 = Some (FallbackSizeMismatch (total_size (snd r)) (downloaded (snd r)))))"
    if "fallback_ok j1 r" "emits j j1" "temp_dir_exists j1 = temp_dir_exists j"
      "cancel_event j \<longrightarrow> cancel_event j1" "connection_type j1 = Single" for j1 r
  proof -
    from that(1) have "emits j1 (snd r)" by (simp add: fallback_ok_def)
    with that(2) have "emits j (snd r)" by (rule emits_trans)
    with that show ?thesis by (simp add: fallback_ok_def)
  qed
  show ?thesis
  proof (cases get)
    case (Inl e)
    then have r: "fallback_download now get bd j = (False, fallback_except e j2)"
      by (simp add: fallback_download_def Let_def j2_def)
    have "fallback_ok j2 (False, fallback_except e j2)"
      by (rule fallback_ok_except) simp_all
    from goal [OF this f2] show ?thesis by (simp add: r)
  next
    case (Inr p)
    obtain final_get_url cl where p: "p = (final_get_url, cl)" by (cases p)
    define j3 where "j3 = j2\<lparr>url := final_get_url\<rparr>"
    have "emits j2 j3" by (simp add: j3_def emits_same)
    with f2(1) have e3: "emits j j3" by (rule emits_trans)
    have f3: "temp_dir_exists j3 = temp_dir_exists j" "cancel_event j \<longrightarrow> cancel_event j3"
      "connection_type j3 = Single"
      using f2 by (simp_all add: j3_def)
    show ?thesis
    proof (cases "fallback_get_size cl j3")
      case (Inl e)
      then have r: "fallback_download now get bd j = (False, fallback_except e j3)"
        using Inr p by (simp add: fallback_download_def Let_def j2_def j3_def)
      have "fallback_ok j3 (False, fallback_except e j3)"
        by (rule fallback_ok_except) simp_all
      from goal [OF this e3 f3] show ?thesis by (simp add: r)
    next
      case sz: (Inr j4)
      then have r: "fallback_download now get bd j = fallback_body bd j4"
        using Inr p by (simp add: fallback_download_def Let_def j2_def j3_def)
      have j4: "j4 = j3 \<or> (\<exists>n. j4 = j3\<lparr>total_size := n\<rparr>)"
        using sz by (auto simp: fallback_get_size_def split: if_splits sum.splits)
      then have "emits j3 j4" by (auto simp: emits_same)
      with e3 have e4: "emits j j4" by (rule emits_trans)
      have f4: "temp_dir_exists j4 = temp_dir_exists j" "cancel_event j \<longrightarrow> cancel_event j4"
        "connection_type j4 = Single"
        using j4 f3 by auto
      from goal [OF fallback_body_frame [of j4 bd] e4 f4] show ?thesis
        by (simp add: r f4)
    qed
  qed
qed

lemma download_ok_after:
  assumes "emits j j1" "cancel_event j \<longrightarrow> cancel_event j1" "download_ok j1 r"
  shows "download_ok j r"
proof -
  from assms(3) have "emits j1 (snd r)" by (simp add: download_ok_def)
  with assms(1) have "emits j (snd r)" by (rule emits_trans)
  with assms show ?thesis by (simp add: download_ok_def)
qed

lemma fallback_branch_frame: "download_ok j (fallback_branch e j)"
proof -
  obtain ok j1 where f: "fallback_download (clock_fallback e) (http_get e) (body e) j = (ok, j1)"
    by (cases "fallback_download (clock_fallback e) (http_get e) (body e) j")
  from fallback_download_frame [where j = j and now = "clock_fallback e"
      and get = "http_get e" and bd = "body e"] f
  have f1: "emits j j1" "cancel_event j \<longrightarrow> cancel_event j1" "ok \<longrightarrow> output_exists j1"
    by simp_all
  let ?j2 = "(if \<not> ok \<and> error j1 = None then j1\<lparr>error := Some SingleFailed\<rparr> else j1)"
  have "emits j1 ?j2" by (simp add: emits_same)
  with f1(1) have "emits j ?j2" by (rule emits_trans)
  moreover have "fallback_branch e j = (ok, ?j2)" using f by (simp add: fallback_branch_def)
  ultimately show ?thesis using f1 by (simp add: download_ok_def)
qed

lemma multi_setup_frame:
  "(case multi_setup e j of
      Inl r \<Rightarrow> \<not> fst r \<and> emits j (snd r) \<and> cancel_event (snd r) = cancel_event j
    | Inr (segs, j3) \<Rightarrow> emits j j3 \<and> cancel_event j3 = cancel_event j)"
proof -
  define j1 where "j1 = notify (no_update\<lparr>u_connection_type := Some (Multi (num_connections j))\<rparr>)
                 (j\<lparr>connection_type := Multi (num_connections j)\<rparr>)"
  have "sparse (no_update\<lparr>u_connection_type := Some (Multi (num_connections j))\<rparr>)"
    by (simp add: sparse_def no_update_def)
  then have "emits (j\<lparr>connection_type := Multi (num_connections j)\<rparr>) j1"
    unfolding j1_def by (rule emits_notify)
  moreover have "emits j (j\<lparr>connection_type := Multi (num_connections j)\<rparr>)"
    by (simp add: emits_same)
  ultimately have e1: "emits j j1" by (rule emits_trans [rotated])
  have c1: "cancel_event j1 = cancel_event j" by (simp add: j1_def)
  have same: "emits j j'" if "manager j' = manager j1" "download_id j' = download_id j1"
    "notifications j' = notifications j1" for j'
    using e1 emits_same [OF that] by (rule emits_trans)
  show ?thesis
  proof (cases "(if temp_dir_exists j1 then setup_rmtree e else None)")
    case (Some t)
    then have "multi_setup e j = Inl (False, j1\<lparr>error := Some (TempDirFailed t)\<rparr>)"
      by (simp add: multi_setup_def Let_def j1_def)
    then show ?thesis using c1 by (simp add: same)
  next
    case no_rm: None
    show ?thesis
    proof (cases "mkdir_temp e")
      case (Some t)
      then have "multi_setup e j = Inl (False, j1\<lparr>temp_dir_exists := False,
          part_size := Map.empty, error := Some (TempDirFailed t)\<rparr>)"
        using no_rm by (simp add: multi_setup_def Let_def j1_def)
      then show ?thesis using c1 by (simp add: same)
    next
      case None
      define j2 where "j2 = j1\<lparr>temp_dir_exists := True, part_size := Map.empty,
          part_files := []\<rparr>"
      show ?thesis
      proof (cases "calc_segments (total_size j2) (num_connections j2)")
        case (Inl ex)
        then have "multi_setup e j = Inl (False, j2\<lparr>error := (case error j2 of
                                  None \<Rightarrow> Some (UnexpectedDownloadError
                                                  ''integer division or modulo by zero'')
                                | Some er \<Rightarrow> Some er)\<rparr>)"
          using None no_rm by (simp add: multi_setup_def Let_def j1_def j2_def)
        then show ?thesis using c1 by (simp add: same j2_def)
      next
        case (Inr segs)
        then have "multi_setup e j = Inr (segs, j2\<lparr>part_files := map seg_index segs\<rparr>)"
          using None no_rm by (simp add: multi_setup_def Let_def j1_def j2_def)
        then show ?thesis using c1 by (simp add: same j2_def)
      qed
    qed
  qed
qed

lemma with_segments_frame:
  assumes "with_segments e x segs j = Some (ok, ths, j')"
  shows "download_ok j (ok, j')"
proof (cases "segs = []")
  case True
  let ?j = "j\<lparr>error := Some NoValidSegments\<rparr>"
  have e: "emits j ?j" by (simp add: emits_same)
  have c: "cancel_event j \<longrightarrow> cancel_event ?j" by simp
  have "(ok, j') = fallback_branch e ?j"
    using assms True by (simp add: with_segments_def split: prod.splits)
  then have "download_ok ?j (ok, j')" by (simp add: fallback_branch_frame)
  with e c show ?thesis by (rule download_ok_after)
next
  case False
  obtain j4 where w: "wait_for_threads (schedule e) (start_threads segs j) j = Some (ths, j4)"
    and r: "post_download x j4 = (ok, j')"
    using assms False
    by (auto simp: with_segments_def split: option.splits prod.splits)
  from wait_frame [OF w] have f4: "emits j j4" "cancel_event j \<longrightarrow> cancel_event j4"
    by simp_all
  from post_download_frame [OF r]
  have f5: "emits j4 j'" "cancel_event j' = cancel_event j4" "ok \<longrightarrow> output_exists j'"
    by simp_all
  from f4(1) f5(1) have "emits j j'" by (rule emits_trans)
  with f4 f5 show ?thesis by (simp add: download_ok_def)
qed

lemma download_try_frame:
  assumes "download_try e s j = Some (ok, ths, j')"
  shows "download_ok j (ok, j')"
proof (cases "use_multi_connection s j")
  case False
  with assms have "(ok, j') = fallback_branch e j"
    by (simp add: download_try_def split: prod.splits)
  then show ?thesis by (simp add: fallback_branch_frame)
next
  case True
  show ?thesis
  proof (cases "multi_setup e j")
    case (Inl r')
    with assms True have "r' = (ok, j')"
      by (simp add: download_try_def split: prod.splits)
    with multi_setup_frame [where e = e and j = j] Inl show ?thesis
      by (simp add: download_ok_def)
  next
    case (Inr p)
    obtain segs j3 where p: "p = (segs, j3)" by (cases p)
    from multi_setup_frame [where e = e and j = j] Inr p
    have f3: "emits j j3" "cancel_event j \<longrightarrow> cancel_event j3" by simp_all
    have "with_segments e (total_size j) segs j3 = Some (ok, ths, j')"
      using assms True Inr p by (simp add: download_try_def Let_def)
    then have "download_ok j3 (ok, j')" by (rule with_segments_frame)
    with f3 show ?thesis by (rule download_ok_after)
  qed
qed

lemma final_update_cleanup [simp]: "final_update s (cleanup_temp f s' j) = final_update s j"
  by (simp add: final_update_def cleanup_temp_def Let_def)

lemma cleanup_temp_frame [simp]:
  "temp_dir_exists (cleanup_temp f s j) = (temp_dir_exists j \<and> rmtree_raises f)"
  "output_exists (cleanup_temp f s j) = (output_exists j \<and> (s \<or> unlink_raises f))"
  "manager (cleanup_temp f s j) = manager j"
  "download_id (cleanup_temp f s j) = download_id j"
  "notifications (cleanup_temp f s j) = notifications j"
  "error (cleanup_temp f s j) = error j"
  "cancel_event (cleanup_temp f s j) = cancel_event j"
  by (auto simp: cleanup_temp_def Let_def)

lemma cleanup_temp_manager [simp]: "manager_and_id (cleanup_temp f s j) = manager_and_id j"
  by (simp add: manager_and_id_def)

lemma emits_cleanup: "emits j (cleanup_temp f s j)"
  by (simp add: emits_same)

lemma final_update_notify [simp]: "final_update s (notify u j) = final_update s j"
  by (simp add: final_update_def Let_def notify_def)

lemma download_finally_frame:
  assumes "download_finally e s ths j = (ths', j')"
  shows "\<exists>j3. j' = notify (final_update s j3) j3 \<and> emits j j3
     \<and> (temp_dir_exists j3 \<longleftrightarrow> temp_dir_exists j \<and> rmtree_raises (final_faults e))
     \<and> (output_exists j3 \<longleftrightarrow> output_exists j \<and> (s \<or> unlink_raises (final_faults e)))
     \<and> (cancel_event j \<longrightarrow> cancel_event j3) \<and> (error j \<noteq> None \<longrightarrow> error j3 \<noteq> None)"
proof -
  obtain ths1 j1 where r1: "run_late (late_cleanup e) (ths, j) = (ths1, j1)"
    by (cases "run_late (late_cleanup e) (ths, j)")
  define j2 where "j2 = cleanup_temp (final_faults e) s j1"
  obtain ths2 j3 where r2: "run_late (late_final e) (ths1, j2) = (ths2, j3)"
    by (cases "run_late (late_final e) (ths1, j2)")
  have j': "j' = notify (final_update s j3) j3"
    using assms r1 r2 by (simp add: download_finally_def j2_def)
  have f1: "run_frame ths j (ths1, j1)"
    using run_late_frame [of ths j "late_cleanup e"] r1 by simp
  have f2: "run_frame ths1 j2 (ths2, j3)"
    using run_late_frame [of ths1 j2 "late_final e"] r2 by simp
  from f1 have "emits j j1" by (simp add: run_frame_def)
  moreover have "emits j1 j2" by (simp add: j2_def emits_cleanup)
  ultimately have "emits j j2" by (rule emits_trans)
  moreover from f2 have "emits j2 j3" by (simp add: run_frame_def)
  ultimately have "emits j j3" by (rule emits_trans)
  with j' f1 f2 show ?thesis by (auto simp: run_frame_def j2_def)
qed

lemma run_threads_no_thread:
  "list_all (\<lambda>s. s \<noteq> ExternalCancel) ss \<Longrightarrow> run_threads ss ([], j) = ([], j)"
proof (induction ss)
  case Nil
  show ?case by simp
next
  case (Cons s ss)
  then show ?case by (cases s) simp_all
qed

lemma run_late_no_thread: "run_late steps ([], j) = ([], j)"
proof -
  have "list_all (\<lambda>s. s \<noteq> ExternalCancel) (map (\<lambda>(k, ev). Run k ev) steps)"
    by (induction steps) auto
  then show ?thesis by (simp add: run_late_def run_threads_no_thread)
qed

lemma download_finally_no_thread:
  "download_finally e s [] j
     = ([], notify (final_update s j) (cleanup_temp (final_faults e) s j))"
  by (simp add: download_finally_def run_late_no_thread)

lemma probe_frame:
  assumes "get_range_support_and_url server j = Inr (u, s, j')"
  shows "emits j j' \<and> cancel_event j' = cancel_event j"
proof -
  have "manager j' = manager j \<and> download_id j' = download_id j
    \<and> notifications j' = notifications j \<and> cancel_event j' = cancel_event j"
    using assms
    by (auto simp: get_range_support_and_url_def head_try_def Let_def
        split: sum.splits prod.splits exc.splits if_splits)
  then show ?thesis by (simp add: emits_same)
qed

lemma download_init_frame:
  "emits j (download_init f now j) \<and> cancel_event (download_init f now j) = cancel_event j"
proof -
  let ?j = "j\<lparr>start_time := now, downloaded := 0, error := None\<rparr>"
  have a: "emits j ?j" by (simp add: emits_same)
  have "emits ?j (cleanup_temp f False ?j)" by (rule emits_cleanup)
  with a have "emits j (cleanup_temp f False ?j)" by (rule emits_trans)
  with a show ?thesis by (simp add: download_init_def Let_def)
qed

lemma download_result:
  assumes "download e j = Some (Inr (success, ths, jf))"
  obtains u s j2 ths3 j3 where
    "get_range_support_and_url (http_head e) (download_init (init_faults e) (clock_start e) j)
       = Inr (u, s, j2)"
    "download_try e s j2 = Some (success, ths3, j3)"
    "download_finally e success ths3 j3 = (ths, jf)"
  using assms
  by (auto simp: download_def Let_def split: sum.splits option.splits prod.splits)

lemma download_emits:
  assumes probe: "get_range_support_and_url (http_head e)
                    (download_init (init_faults e) (clock_start e) j) = Inr (u, s, j2)"
    and tr: "download_try e s j2 = Some (success, ths3, j3)"
  shows "emits j j3 \<and> (success \<longrightarrow> output_exists j3) \<and> (cancel_event j \<longrightarrow> cancel_event j3)"
proof -
  from download_init_frame [where j = j and now = "clock_start e" and f = "init_faults e"]
  have i: "emits j (download_init (init_faults e) (clock_start e) j)"
    "cancel_event (download_init (init_faults e) (clock_start e) j) = cancel_event j"
    by simp_all
  from probe_frame [OF probe]
  have p: "emits (download_init (init_faults e) (clock_start e) j) j2"
    "cancel_event j2 = cancel_event (download_init (init_faults e) (clock_start e) j)"
    by simp_all
  from i(1) p(1) have e2: "emits j j2" by (rule emits_trans)
  from download_try_frame [OF tr]
  have t: "emits j2 j3" "success \<longrightarrow> output_exists j3" "cancel_event j2 \<longrightarrow> cancel_event j3"
    by (simp_all add: download_ok_def)
  from e2 t(1) have "emits j j3" by (rule emits_trans)
  with t i p show ?thesis by simp
qed

text \<open>
  C3, amended. When \<open>download\<close> returns, the temp directory does not exist unless its
  removal raised, and the output file exists on success and, unless its removal raised,
  not otherwise. If a manager and a job id are attached, the manager has received,
  after sparse updates only, one final update, the last notification at that moment,
  that carries the status (completed on success, else cancelled if the flag is set, else
  failed), speed 0, progress 100 on success and otherwise the current percentage capped
  at 100 (0 for an unknown total), and the recorded error. With no manager attached
  nothing is sent. Whatever worker threads that still run do afterwards, they add
  sparse updates only and leave both paths as they are.
\<close>

theorem terminal_cleanup:
  assumes "download e j = Some (Inr (success, ths, jf))"
  shows "(\<not> rmtree_raises (final_faults e) \<longrightarrow> \<not> temp_dir_exists jf)
     \<and> (success \<longrightarrow> output_exists jf)
     \<and> (\<not> success \<and> \<not> unlink_raises (final_faults e) \<longrightarrow> \<not> output_exists jf)
     \<and> (if manager_and_id j
         then (\<exists>us. notifications jf = notifications j @ us @ [final_update success jf]
                 \<and> list_all sparse us)
         else notifications jf = notifications j)
     \<and> \<not> sparse (final_update success jf)
     \<and> u_status (final_update success jf)
         = Some (if success then Completed else if cancel_event jf then Cancelled else Failed)
     \<and> u_speed (final_update success jf) = Some 0
     \<and> u_progress (final_update success jf)
         = Some (if success then 100
                 else if total_size jf > 0
                 then min 100 (real_of_int (downloaded jf) / real_of_int (total_size jf) * 100)
                 else 0)
     \<and> u_error (final_update success jf) = Some (error jf)
     \<and> (\<forall>ths' ss. temp_dir_exists (snd (run_threads ss (ths', jf))) = temp_dir_exists jf
           \<and> output_exists (snd (run_threads ss (ths', jf))) = output_exists jf
           \<and> (\<exists>us'. notifications (snd (run_threads ss (ths', jf))) = notifications jf @ us'
                  \<and> list_all sparse us'))"
proof -
  from assms obtain u s j2 ths3 j3 where
    probe: "get_range_support_and_url (http_head e)
              (download_init (init_faults e) (clock_start e) j) = Inr (u, s, j2)"
    and tr: "download_try e s j2 = Some (success, ths3, j3)"
    and fin: "download_finally e success ths3 j3 = (ths, jf)"
    by (rule download_result)
  from download_emits [OF probe tr]
  have e3: "emits j j3" and out: "success \<longrightarrow> output_exists j3" by simp_all
  from download_finally_frame [OF fin] obtain j4 where
    jf: "jf = notify (final_update success j4) j4" and e4: "emits j3 j4"
    and tmp: "temp_dir_exists j4 \<longleftrightarrow> temp_dir_exists j3 \<and> rmtree_raises (final_faults e)"
    and outp: "output_exists j4 \<longleftrightarrow> output_exists j3
                 \<and> (success \<or> unlink_raises (final_faults e))"
    by blast
  from e3 e4 have "emits j j4" by (rule emits_trans)
  then obtain us where us: "notifications j4 = notifications j @ us" "list_all sparse us"
    "\<not> manager_and_id j \<longrightarrow> us = []"
    and mgr: "manager_and_id j4 = manager_and_id j"
    by (auto simp: emits_def)
  have files: "\<not> rmtree_raises (final_faults e) \<longrightarrow> \<not> temp_dir_exists jf"
    "success \<longrightarrow> output_exists jf"
    "\<not> success \<and> \<not> unlink_raises (final_faults e) \<longrightarrow> \<not> output_exists jf"
    using out tmp outp by (auto simp: jf)
  have fu: "final_update success jf = final_update success j4"
    by (simp add: jf)
  have msgs: "if manager_and_id j
         then (\<exists>us. notifications jf = notifications j @ us @ [final_update success jf]
                 \<and> list_all sparse us)
         else notifications jf = notifications j"
  proof (cases "manager_and_id j")
    case True
    then have "notifications jf = notifications j @ us @ [final_update success jf]"
      using us mgr fu by (simp add: jf notify_def)
    with us(2) True show ?thesis by auto
  next
    case False
    with mgr us have "notifications jf = notifications j"
      by (simp add: jf notify_def)
    with False show ?thesis by simp
  qed
  have rest: "\<not> sparse (final_update success jf)"
    "u_status (final_update success jf)
         = Some (if success then Completed else if cancel_event jf then Cancelled else Failed)"
    "u_speed (final_update success jf) = Some 0"
    "u_progress (final_update success jf)
         = Some (if success then 100
                 else if total_size jf > 0
                 then min 100 (real_of_int (downloaded jf) / real_of_int (total_size jf) * 100)
                 else 0)"
    "u_error (final_update success jf) = Some (error jf)"
    by (simp_all add: final_update_def Let_def sparse_def percent_def)
  have later: "\<forall>ths' ss. temp_dir_exists (snd (run_threads ss (ths', jf))) = temp_dir_exists jf
           \<and> output_exists (snd (run_threads ss (ths', jf))) = output_exists jf
           \<and> (\<exists>us'. notifications (snd (run_threads ss (ths', jf))) = notifications jf @ us'
                  \<and> list_all sparse us')"
  proof (intro allI)
    fix ths' ss
    from run_threads_frame [of ths' jf ss]
    show "temp_dir_exists (snd (run_threads ss (ths', jf))) = temp_dir_exists jf
           \<and> output_exists (snd (run_threads ss (ths', jf))) = output_exists jf
           \<and> (\<exists>us'. notifications (snd (run_threads ss (ths', jf))) = notifications jf @ us'
                  \<and> list_all sparse us')"
      by (auto simp: run_frame_def emits_def)
  qed
  from files msgs rest later show ?thesis by blast
qed

subsection \<open>Whole runs\<close>

lemma lower_bytes: "lower ''bytes'' = ''bytes''"
  by code_simp

lemmas run_defs = download_def download_init_def get_range_support_and_url_def head_try_def
  download_try_def with_segments_def use_multi_connection_def fallback_branch_def
  fallback_download_def fallback_reset_def fallback_except_def fallback_get_size_def
  fallback_body_def download_finally_def run_late_def cleanup_temp_def final_update_def
  notify_def manager_and_id_def no_update_def init_def percent_def MIN_SIZE_FOR_MULTI_MB_def
  summary_def Let_def get_request_headers_def py_int_header_def update_progress_def
  STATUS_UPDATE_INTERVAL_def multi_setup_def calc_segments_def plan_loop.simps seg_index_def
  seg_start_def seg_end_def start_threads_def new_thread_def wait_for_threads_def
  download_segment_step_def segment_except_def retry_or_give_up_def retries_def cancel_def
  post_download_def lower_bytes exc_text_def no_faults_def

text \<open>
  C3, as stated, fails in two ways. For a job with no manager attached the run ends
  (failed, no file left) and no status notification is emitted at all. And when the
  removal of the temp directory raises, the run ends (cancelled) and the temp directory
  still exists.
\<close>

theorem terminal_cleanup_counterexample:
  "summary (download dead_env unmanaged_job)
     = Some (False, [], Some (FallbackRequestException ''connection refused'' NoSuffix),
             False, False)
   \<and> summary (download stuck_env multi_job)
     = Some (False, [None, Some Cancelled, Some Cancelled], Some CancelledByUser, True, False)"
  by (simp add: run_defs dead_env_def unmanaged_job_def stuck_env_def flaky_env_def
      multi_job_def ranged_server_def)

theorem terminal_cleanup_witness:
  "\<exists>ths jf. download dead_env single_job = Some (Inr (False, ths, jf))
      \<and> \<not> temp_dir_exists jf \<and> \<not> output_exists jf
      \<and> (\<exists>us. notifications jf = notifications single_job @ us @ [final_update False jf]
             \<and> list_all sparse us)
      \<and> u_status (final_update False jf) = Some Failed
      \<and> u_speed (final_update False jf) = Some 0"
proof -
  have "\<exists>ths jf. download dead_env single_job = Some (Inr (False, ths, jf))
          \<and> \<not> cancel_event jf"
    by (simp add: run_defs dead_env_def single_job_def)
  then obtain ths jf where h: "download dead_env single_job = Some (Inr (False, ths, jf))"
    and c: "\<not> cancel_event jf" by blast
  have m: "manager_and_id single_job"
    by (simp add: single_job_def init_def manager_and_id_def)
  have f: "\<not> rmtree_raises (final_faults dead_env)" "\<not> unlink_raises (final_faults dead_env)"
    by (simp_all add: dead_env_def no_faults_def)
  from terminal_cleanup [OF h] m c f
  have "\<not> temp_dir_exists jf \<and> \<not> output_exists jf
      \<and> (\<exists>us. notifications jf = notifications single_job @ us @ [final_update False jf]
             \<and> list_all sparse us)
      \<and> u_status (final_update False jf) = Some Failed
      \<and> u_speed (final_update False jf) = Some 0"
    by simp
  with h show ?thesis by blast
qed

lemma update_progress_downloaded [simp]:
  "downloaded (update_progress n t j) = downloaded j + n"
  by (simp add: update_progress_def Let_def notify_def)

lemma fallback_stream_chunks:
  "list_all is_chunk es \<Longrightarrow> \<not> cancel_event j \<Longrightarrow>
     \<exists>j'. fallback_stream es j = (StreamDone, j')
        \<and> downloaded j' = downloaded j + sum_list (map chunk_len es)
        \<and> total_size j' = total_size j"
proof (induction es arbitrary: j)
  case Nil
  then show ?case by simp
next
  case (Cons ev es)
  from Cons.prems(1) obtain n t where ev: "ev = FChunk n t" by (cases ev) auto
  let ?j = "(if n \<noteq> 0
             then update_progress (int n) t (j\<lparr>output_size := output_size j + int n\<rparr>)
             else j)"
  have c: "\<not> cancel_event ?j" using Cons.prems(2) by simp
  have d: "downloaded ?j = downloaded j + int n" "total_size ?j = total_size j" by simp_all
  from Cons.prems(1) have "list_all is_chunk es" by simp
  from Cons.IH [OF this c] obtain j' where
    "fallback_stream es ?j = (StreamDone, j')"
    "downloaded j' = downloaded ?j + sum_list (map chunk_len es)"
    "total_size j' = total_size ?j" by blast
  with d ev Cons.prems(2) show ?case by simp
qed

lemma fallback_body_chunks:
  assumes "list_all is_chunk bd" and "\<not> cancel_event j" and "downloaded j = 0"
    and "total_size j > 0" and "sum_list (map chunk_len bd) \<noteq> total_size j"
  shows "\<exists>j'. fallback_body bd j = (True, j')
     \<and> error j' = Some (FallbackSizeMismatch (total_size j) (sum_list (map chunk_len bd)))"
proof -
  let ?j0 = "j\<lparr>output_exists := True, output_size := 0\<rparr>"
  have "\<not> cancel_event ?j0" using assms(2) by simp
  from fallback_stream_chunks [OF assms(1) this] assms(3) obtain j5 where
    s: "fallback_stream bd ?j0 = (StreamDone, j5)"
    and d: "downloaded j5 = sum_list (map chunk_len bd)" "total_size j5 = total_size j"
    by auto
  with assms(4,5) show ?thesis by (simp add: fallback_body_def)
qed

lemma fallback_reset_fields [simp]:
  "downloaded (fallback_reset now j) = 0"
  "total_size (fallback_reset now j) = total_size j"
  "cancel_event (fallback_reset now j) = cancel_event j"
  by (simp_all add: fallback_reset_def Let_def)

lemma fallback_download_chunks:
  assumes chunks: "list_all is_chunk bd" and nc: "\<not> cancel_event j"
    and T: "T = (if total_size j > 0 then total_size j
                 else (case cl of CLInt n \<Rightarrow> n | _ \<Rightarrow> 0))" "T > 0"
    and mismatch: "sum_list (map chunk_len bd) \<noteq> T"
  shows "\<exists>j'. fallback_download now (Inr (final_url, cl)) bd j = (True, j')
     \<and> error j' = Some (FallbackSizeMismatch T (sum_list (map chunk_len bd)))"
proof -
  define j3 where "j3 = (fallback_reset now j)\<lparr>url := final_url\<rparr>"
  have f3: "downloaded j3 = 0" "total_size j3 = total_size j" "\<not> cancel_event j3"
    using nc by (simp_all add: j3_def)
  have "\<exists>j4. fallback_get_size cl j3 = Inr j4 \<and> downloaded j4 = 0 \<and> total_size j4 = T
          \<and> \<not> cancel_event j4"
  proof (cases "total_size j > 0")
    case True
    with T f3 show ?thesis by (simp add: fallback_get_size_def)
  next
    case False
    with T obtain n where "cl = CLInt n" "n = T" by (cases cl) auto
    with False T f3 show ?thesis
      by (simp add: fallback_get_size_def py_int_header_def)
  qed
  then obtain j4 where g: "fallback_get_size cl j3 = Inr j4"
    and f4: "downloaded j4 = 0" "total_size j4 = T" "\<not> cancel_event j4" by blast
  from fallback_body_chunks [OF chunks f4(3) f4(1)] T(2) mismatch f4(2)
  obtain j' where "fallback_body bd j4 = (True, j')"
    "error j' = Some (FallbackSizeMismatch T (sum_list (map chunk_len bd)))"
    by auto
  with g show ?thesis by (simp add: fallback_download_def Let_def j3_def)
qed

text \<open>
  C10. When the job takes the single-connection download, is not cancelled, the GET
  succeeds, the body consists of chunks and ends, and the bytes received differ from the
  known positive total (known before the GET or from its content-length), then
  \<open>download\<close> returns success, the output file exists, the job's error is the
  size-mismatch error, and the final status sent to an attached manager is "completed",
  with that error.
\<close>

theorem fallback_size_mismatch_completes:
  assumes probe: "get_range_support_and_url (http_head e)
                    (download_init (init_faults e) (clock_start e) j) = Inr (u, s, j2)"
    and single: "\<not> use_multi_connection s j2"
    and get: "http_get e = Inr (final_url, cl)"
    and chunks: "list_all is_chunk (body e)"
    and nc: "\<not> cancel_event j"
    and T: "T = (if total_size j2 > 0 then total_size j2
                 else (case cl of CLInt n \<Rightarrow> n | _ \<Rightarrow> 0))" "T > 0"
    and mismatch: "sum_list (map chunk_len (body e)) \<noteq> T"
  shows "\<exists>ths jf. download e j = Some (Inr (True, ths, jf)) \<and> output_exists jf
      \<and> error jf = Some (FallbackSizeMismatch T (sum_list (map chunk_len (body e))))
      \<and> (manager_and_id j \<longrightarrow> notifications jf \<noteq> []
            \<and> u_status (last (notifications jf)) = Some Completed
            \<and> u_error (last (notifications jf))
                = Some (Some (FallbackSizeMismatch T (sum_list (map chunk_len (body e))))))"
proof -
  let ?err = "FallbackSizeMismatch T (sum_list (map chunk_len (body e)))"
  from download_init_frame [where j = j and now = "clock_start e" and f = "init_faults e"]
    probe_frame [OF probe] nc
  have nc2: "\<not> cancel_event j2" by simp
  from fallback_download_chunks [OF chunks nc2 T mismatch, of "clock_fallback e" final_url]
  obtain j3 where fb: "fallback_download (clock_fallback e) (http_get e) (body e) j2 = (True, j3)"
    and err: "error j3 = Some ?err"
    using get by auto
  from fallback_download_frame [where j = j2 and now = "clock_fallback e"
      and get = "http_get e" and bd = "body e"] fb
  have out: "output_exists j3" by simp
  have tr: "download_try e s j2 = Some (True, [], j3)"
    using single fb by (simp add: download_try_def fallback_branch_def)
  from download_emits [OF probe tr] have "emits j j3" by simp
  then have mgr: "manager_and_id j3 = manager_and_id j" by (simp add: emits_def)
  define jf where "jf = notify (final_update True j3) (cleanup_temp (final_faults e) True j3)"
  have d: "download e j = Some (Inr (True, [], jf))"
    using probe tr by (simp add: download_def Let_def jf_def download_finally_no_thread)
  have "output_exists jf" "error jf = Some ?err"
    using out err by (simp_all add: jf_def)
  moreover have "manager_and_id j \<longrightarrow> notifications jf \<noteq> []
            \<and> u_status (last (notifications jf)) = Some Completed
            \<and> u_error (last (notifications jf)) = Some (Some ?err)"
    using mgr err by (simp add: jf_def notify_def final_update_def Let_def)
  ultimately show ?thesis using d by blast
qed

theorem fallback_size_mismatch_completes_witness:
  "\<exists>ths jf. download short_env single_job = Some (Inr (True, ths, jf)) \<and> output_exists jf
      \<and> error jf = Some (FallbackSizeMismatch 5 3)
      \<and> u_status (last (notifications jf)) = Some Completed"
proof -
  let ?j1 = "download_init (init_faults short_env) (clock_start short_env) single_job"
  let ?j2 = "?j1\<lparr>error := Some (HeadTimedOut ''timed out'')\<rparr>"
  have probe: "get_range_support_and_url (http_head short_env) ?j1
                 = Inr (initial_url ?j1, False, ?j2)"
    by (simp add: run_defs short_env_def dead_env_def single_job_def)
  have single: "\<not> use_multi_connection False ?j2"
    by (simp add: use_multi_connection_def)
  have get: "http_get short_env = Inr (''https://example.org/model.bin'', CLAbsent)"
    and chunks: "list_all is_chunk (body short_env)"
    and sum: "sum_list (map chunk_len (body short_env)) = 3"
    by (simp_all add: short_env_def dead_env_def)
  have nc: "\<not> cancel_event single_job" by (simp add: single_job_def init_def)
  have T: "(5::int) = (if total_size ?j2 > 0 then total_size ?j2
                 else (case CLAbsent of CLInt n \<Rightarrow> n | _ \<Rightarrow> 0))" "(5::int) > 0"
    by (simp_all add: run_defs single_job_def short_env_def dead_env_def)
  have mismatch: "sum_list (map chunk_len (body short_env)) \<noteq> 5" using sum by simp
  have m: "manager_and_id single_job"
    by (simp add: single_job_def init_def manager_and_id_def)
  from fallback_size_mismatch_completes [OF probe single get chunks nc T mismatch] m sum
  show ?thesis by auto
qed

text \<open>
  C1, as stated, fails: two connections, every request of the first worker fails, and
  it gives up after its third try. The final status is "cancelled", not "failed", and
  the error is the default one of \<open>cancel()\<close>, not the segment's.
\<close>

theorem exhausted_segment_counterexample:
  "summary (download flaky_env multi_job)
     = Some (False, [None, Some Cancelled, Some Cancelled], Some CancelledByUser, False, False)"
  by (simp add: run_defs flaky_env_def multi_job_def ranged_server_def)

text \<open>
  C1, amended. In a multi-connection job in which a worker has used up its three tries
  and returned when the orchestrator looks, \<open>download\<close> returns failure with the
  cancellation flag set and an error recorded, the final status sent to an attached
  manager is "cancelled", and afterwards the temp directory does not exist unless its
  removal raised, nor the output file unless its removal raised.
\<close>

theorem exhausted_segment_cancels:
  assumes probe: "get_range_support_and_url (http_head e)
                    (download_init (init_faults e) (clock_start e) j) = Inr (u, s, j2)"
    and multi: "use_multi_connection s j2"
    and seg: "multi_setup e j2 = Inr (segs, j3)"
    and exhausted: "\<exists>th\<in>set (fst (run_threads (schedule e) (start_threads segs j3, j3))).
                      retries \<le> current_try th \<and> phase th = Returned"
  shows "\<exists>ths jf. download e j = Some (Inr (False, ths, jf)) \<and> cancel_event jf
      \<and> error jf \<noteq> None
      \<and> (\<not> rmtree_raises (final_faults e) \<longrightarrow> \<not> temp_dir_exists jf)
      \<and> (\<not> unlink_raises (final_faults e) \<longrightarrow> \<not> output_exists jf)
      \<and> (manager_and_id j \<longrightarrow> notifications jf \<noteq> []
            \<and> u_status (last (notifications jf)) = Some Cancelled)"
proof -
  obtain ths4 j4 where run: "run_threads (schedule e) (start_threads segs j3, j3) = (ths4, j4)"
    by (cases "run_threads (schedule e) (start_threads segs j3, j3)")
  from run_threads_frame [where ths = "start_threads segs j3" and j = j3 and ss = "schedule e"]
    run tries_inv_start [of segs j3]
  have inv: "tries_inv ths4 j4" and len: "length ths4 = length (start_threads segs j3)"
    by (simp_all add: run_frame_def)
  from exhausted run
  have ex: "\<exists>th\<in>set ths4. retries \<le> current_try th \<and> phase th = Returned" by simp
  with inv have c4: "cancel_event j4" by (auto simp: tries_inv_def)
  from ex len have ne: "start_threads segs j3 \<noteq> []" by auto
  then have segs: "segs \<noteq> []" by (auto simp: start_threads_def split: if_splits)
  define j5 where "j5 = j4\<lparr>error := (case error j4 of None \<Rightarrow> Some CancelledPlain
                                          | Some e \<Rightarrow> Some e)\<rparr>"
  have w: "wait_for_threads (schedule e) (start_threads segs j3) j3 = Some (ths4, j5)"
    using ne run c4 by (simp add: wait_for_threads_def j5_def)
  have c5: "cancel_event j5" "error j5 \<noteq> None"
    using c4 by (auto simp: j5_def split: option.splits)
  have pd: "post_download (total_size j2) j5 = (False, j5)"
    using c5 by (simp add: post_download_def Let_def)
  have tr: "download_try e s j2 = Some (False, ths4, j5)"
    using multi seg segs w pd by (simp add: download_try_def with_segments_def Let_def)
  from download_emits [OF probe tr] have e5: "emits j j5" by simp
  obtain ths jf where fin: "download_finally e False ths4 j5 = (ths, jf)"
    by (cases "download_finally e False ths4 j5")
  from download_finally_frame [OF fin] obtain j6 where
    jf: "jf = notify (final_update False j6) j6" and e6: "emits j5 j6"
    and tmp: "temp_dir_exists j6 \<longleftrightarrow> temp_dir_exists j5 \<and> rmtree_raises (final_faults e)"
    and outp: "output_exists j6 \<longleftrightarrow> output_exists j5
                 \<and> (False \<or> unlink_raises (final_faults e))"
    and c6: "cancel_event j6" "error j6 \<noteq> None"
    using c5 by blast
  from e5 e6 have "emits j j6" by (rule emits_trans)
  then have mgr: "manager_and_id j6 = manager_and_id j" by (simp add: emits_def)
  have d: "download e j = Some (Inr (False, ths, jf))"
    using probe tr fin by (simp add: download_def Let_def)
  have "cancel_event jf" "error jf \<noteq> None"
    "\<not> rmtree_raises (final_faults e) \<longrightarrow> \<not> temp_dir_exists jf"
    "\<not> unlink_raises (final_faults e) \<longrightarrow> \<not> output_exists jf"
    using c6 tmp outp by (simp_all add: jf)
  moreover have "manager_and_id j \<longrightarrow> notifications jf \<noteq> []
            \<and> u_status (last (notifications jf)) = Some Cancelled"
    using mgr c6 by (simp add: jf notify_def final_update_def Let_def)
  ultimately show ?thesis using d by blast
qed

theorem exhausted_segment_cancels_witness:
  "\<exists>ths jf. download flaky_env multi_job = Some (Inr (False, ths, jf)) \<and> cancel_event jf
      \<and> \<not> temp_dir_exists jf \<and> \<not> output_exists jf
      \<and> u_status (last (notifications jf)) = Some Cancelled"
proof -
  let ?j1 = "download_init (init_faults flaky_env) (clock_start flaky_env) multi_job"
  have "\<exists>u j2. get_range_support_and_url (http_head flaky_env) ?j1 = Inr (u, True, j2)
          \<and> use_multi_connection True j2
          \<and> (\<exists>segs j3. multi_setup flaky_env j2 = Inr (segs, j3)
                \<and> (\<exists>th\<in>set (fst (run_threads (schedule flaky_env)
                                       (start_threads segs j3, j3))).
                      retries \<le> current_try th \<and> phase th = Returned))"
    by (simp add: run_defs flaky_env_def multi_job_def ranged_server_def)
  then obtain u j2 segs j3 where
    probe: "get_range_support_and_url (http_head flaky_env) ?j1 = Inr (u, True, j2)"
    and multi: "use_multi_connection True j2"
    and seg: "multi_setup flaky_env j2 = Inr (segs, j3)"
    and ex: "\<exists>th\<in>set (fst (run_threads (schedule flaky_env) (start_threads segs j3, j3))).
                      retries \<le> current_try th \<and> phase th = Returned"
    by blast
  have m: "manager_and_id multi_job"
    by (simp add: multi_job_def init_def manager_and_id_def)
  have f: "\<not> rmtree_raises (final_faults flaky_env)" "\<not> unlink_raises (final_faults flaky_env)"
    by (simp_all add: flaky_env_def no_faults_def)
  from exhausted_segment_cancels [OF probe multi seg ex] m f show ?thesis by auto
qed

text \<open>
  A worker whose request was in flight when another worker cancelled still records its
  own error: it is the one the run ends with.
\<close>

lemma late_failure_keeps_its_error:
  "summary (download racing_env multi_job)
     = Some (False, [None, Some Cancelled, Some Cancelled],
             Some (SegmentFailedTry 1 3 (ExcText ''late'') NoSuffix), False, False)"
  by (simp add: run_defs racing_env_def flaky_env_def multi_job_def ranged_server_def)


end
